theory Spec2Isabelle
  imports Complex_Main "HOL-Library.Sublist"
begin

section \<open>Data model\<close>

subsection \<open>float64 values\<close>

text \<open>
  A float64 cell of a pandas column: a finite value, which is a real number, one of the
  two infinities, or NaN. The sign of a zero is not tracked. The operations of this
  subsection are exact; the float64 operations of the next one round their results.
\<close>

datatype fl = Num real | PInf | NInf | NaN

fun fl_neg :: "fl \<Rightarrow> fl" where
  "fl_neg (Num a) = Num (- a)"
| "fl_neg PInf = NInf"
| "fl_neg NInf = PInf"
| "fl_neg NaN = NaN"

fun fl_add :: "fl \<Rightarrow> fl \<Rightarrow> fl" where
  "fl_add NaN _ = NaN"
| "fl_add _ NaN = NaN"
| "fl_add (Num a) (Num b) = Num (a + b)"
| "fl_add PInf NInf = NaN"
| "fl_add NInf PInf = NaN"
| "fl_add PInf _ = PInf"
| "fl_add NInf _ = NInf"
| "fl_add (Num a) PInf = PInf"
| "fl_add (Num a) NInf = NInf"

definition fl_sub :: "fl \<Rightarrow> fl \<Rightarrow> fl" where
  "fl_sub a b = fl_add a (fl_neg b)"

fun fl_square :: "fl \<Rightarrow> fl" where
  "fl_square (Num a) = Num (a * a)"
| "fl_square PInf = PInf"
| "fl_square NInf = PInf"
| "fl_square NaN = NaN"

fun fl_sqrt :: "fl \<Rightarrow> fl" where
  "fl_sqrt (Num a) = (if a < 0 then NaN else Num (sqrt a))"
| "fl_sqrt PInf = PInf"
| "fl_sqrt NInf = NaN"
| "fl_sqrt NaN = NaN"

text \<open>The comparison \<open>a >= b\<close> of two floats: false as soon as one side is NaN.\<close>

fun fl_ge :: "fl \<Rightarrow> fl \<Rightarrow> bool" where
  "fl_ge NaN _ = False"
| "fl_ge _ NaN = False"
| "fl_ge (Num a) (Num b) = (b \<le> a)"
| "fl_ge PInf _ = True"
| "fl_ge _ NInf = True"
| "fl_ge NInf _ = False"
| "fl_ge (Num a) PInf = False"

subsection \<open>float64 arithmetic\<close>

text \<open>
  Rounding of a real number to the nearest double, ties going to the even significand:
  the spacing of the doubles around \<open>x\<close> is \<open>2\<close> to the power \<open>ulp_exp x\<close> (53 bits of
  significand, exponents from -1022), and a result of magnitude \<open>2 ^ 1024\<close> or more
  overflows to an infinity.
\<close>

definition pow2 :: "int \<Rightarrow> real" where
  "pow2 e = (if 0 \<le> e then 2 ^ nat e else 1 / 2 ^ nat (- e))"

definition round_even :: "real \<Rightarrow> int" where
  "round_even r =
     (let f = \<lfloor>r\<rfloor>; d = r - of_int f
      in if d < 1 / 2 then f else if 1 / 2 < d then f + 1 else if even f then f else f + 1)"

definition ulp_exp :: "real \<Rightarrow> int" where
  "ulp_exp x = max \<lfloor>log 2 \<bar>x\<bar>\<rfloor> (- 1022) - 52"

definition round64 :: "real \<Rightarrow> fl" where
  "round64 x =
     (if x = 0 then Num 0
      else let u = pow2 (ulp_exp x); y = of_int (round_even (x / u)) * u
           in if 2 ^ 1024 \<le> \<bar>y\<bar> then (if 0 < x then PInf else NInf) else Num y)"

text \<open>
  The float64 operations the Resampler and the yaw rate use. Each one rounds the exact
  result once, as IEEE 754 prescribes for \<open>+\<close>, \<open>-\<close>, \<open>*\<close>, \<open>/\<close> and the square root.
\<close>

fun add64 :: "fl \<Rightarrow> fl \<Rightarrow> fl" where
  "add64 NaN _ = NaN"
| "add64 _ NaN = NaN"
| "add64 (Num a) (Num b) = round64 (a + b)"
| "add64 PInf NInf = NaN"
| "add64 NInf PInf = NaN"
| "add64 PInf _ = PInf"
| "add64 NInf _ = NInf"
| "add64 (Num a) PInf = PInf"
| "add64 (Num a) NInf = NInf"

definition sub64 :: "fl \<Rightarrow> fl \<Rightarrow> fl" where
  "sub64 a b = add64 a (fl_neg b)"

text \<open>\<open>x * x\<close>.\<close>

fun square64 :: "fl \<Rightarrow> fl" where
  "square64 (Num a) = round64 (a * a)"
| "square64 PInf = PInf"
| "square64 NInf = PInf"
| "square64 NaN = NaN"

fun sqrt64 :: "fl \<Rightarrow> fl" where
  "sqrt64 (Num a) = (if a < 0 then NaN else round64 (sqrt a))"
| "sqrt64 PInf = PInf"
| "sqrt64 NInf = NaN"
| "sqrt64 NaN = NaN"

text \<open>Float division: a zero divisor gives an infinity, or NaN for \<open>0 / 0\<close>.\<close>

fun div64 :: "fl \<Rightarrow> fl \<Rightarrow> fl" where
  "div64 NaN _ = NaN"
| "div64 _ NaN = NaN"
| "div64 (Num a) (Num b) =
     (if b \<noteq> 0 then round64 (a / b)
      else if 0 < a then PInf else if a < 0 then NInf else NaN)"
| "div64 (Num a) _ = Num 0"
| "div64 PInf (Num b) = (if 0 \<le> b then PInf else NInf)"
| "div64 NInf (Num b) = (if 0 \<le> b then NInf else PInf)"
| "div64 _ _ = NaN"

text \<open>
  C's \<open>fmod\<close>: the remainder of the division truncated towards zero. It is exact and has
  the sign of the dividend.
\<close>

definition trunc :: "real \<Rightarrow> int" where
  "trunc r = (if 0 \<le> r then \<lfloor>r\<rfloor> else \<lceil>r\<rceil>)"

definition fmod :: "real \<Rightarrow> real \<Rightarrow> real" where
  "fmod a m = a - m * of_int (trunc (a / m))"

text \<open>
  \<open>a % m\<close> on float64 arrays, for a finite divisor \<open>m\<close> other than zero: numpy takes
  \<open>fmod\<close> and, when its sign differs from the divisor's, adds the divisor, which rounds.
\<close>

fun mod64 :: "fl \<Rightarrow> real \<Rightarrow> fl" where
  "mod64 (Num a) m =
     (let r = fmod a m
      in if r = 0 then Num 0
         else if (r < 0) \<noteq> (m < 0) then round64 (r + m)
         else Num r)"
| "mod64 _ m = NaN"

subsection \<open>Frames, configuration, errors\<close>

text \<open>
  A DataFrame: the column labels in order, and the rows in order, each row a dictionary
  from column label to cell. The row labels (the index) carry no information here: the
  code only ever resets them. The type of the cells is a parameter: the stages that
  compute with numbers work on frames of floats, the Temporal Differencer on frames
  that hold raw cells, timestamps and seconds, and the Projector on any cells.
\<close>

record 'c dataframe =
  columns :: "string list"
  rows :: "(string \<rightharpoonup> 'c) list"

text \<open>\<open>df.empty\<close>: true when either axis has length zero.\<close>

definition df_empty :: "'c dataframe \<Rightarrow> bool" where
  "df_empty df = (rows df = [] \<or> columns df = [])"

text \<open>\<open>df[name] = v\<close> for a scalar \<open>v\<close>: the column is overwritten, or appended when new.\<close>

definition set_scalar_column :: "string \<Rightarrow> 'c \<Rightarrow> 'c dataframe \<Rightarrow> 'c dataframe" where
  "set_scalar_column name v df =
     \<lparr>columns = (if name \<in> set (columns df) then columns df else columns df @ [name]),
      rows = map (\<lambda>r. r(name \<mapsto> v)) (rows df)\<rparr>"

text \<open>\<open>df[name] = vs\<close> for an array \<open>vs\<close> with one value per row.\<close>

definition set_column :: "string \<Rightarrow> 'c list \<Rightarrow> 'c dataframe \<Rightarrow> 'c dataframe" where
  "set_column name vs df =
     \<lparr>columns = (if name \<in> set (columns df) then columns df else columns df @ [name]),
      rows = map2 (\<lambda>r v. r(name \<mapsto> v)) (rows df) vs\<rparr>"

text \<open>\<open>df[name]\<close> read as a list of cells, for a column that exists.\<close>

definition column :: "string \<Rightarrow> 'c dataframe \<Rightarrow> 'c list" where
  "column name df = map (\<lambda>r. the (r name)) (rows df)"

text \<open>\<open>df.iloc[idx].reset_index(drop=True)\<close>: the rows at the given positions, in that order.\<close>

definition iloc :: "nat list \<Rightarrow> 'c dataframe \<Rightarrow> 'c dataframe" where
  "iloc idx df = \<lparr>columns = columns df, rows = map (\<lambda>i. rows df ! i) idx\<rparr>"

text \<open>
  The configuration dictionary. An option that the dictionary does not hold is
  \<open>None\<close>; \<open>config["k"]\<close> then raises KeyError and \<open>config.get("k", d)\<close> gives \<open>d\<close>.
\<close>

record config =
  lat_col :: "string option"
  lon_col :: "string option"
  x_col :: "string option"
  y_col :: "string option"
  heading_col :: "string option"
  dt_col :: "string option"
  min_distance :: "fl option"

datatype error =
    KeyError string
  | MissingColumn string
  | RequiredColumns string string
  | InvalidSelection string
  | SmoothingWindowError
  | LengthMismatch
  | TimestampParseError

section \<open>The Resampler\<close>

text \<open>
  \<open>np.linalg.norm(p - q)\<close> for two points of the plane, as numpy computes it on
  float64: the difference, the dot product of the difference with itself, and the
  square root.
\<close>

definition norm_diff :: "fl \<times> fl \<Rightarrow> fl \<times> fl \<Rightarrow> fl" where
  "norm_diff p q =
     sqrt64 (add64 (square64 (sub64 (fst p) (fst q))) (square64 (sub64 (snd p) (snd q))))"

text \<open>One row of \<open>df[[x_col, y_col]].to_numpy()\<close>.\<close>

definition coord :: "string \<Rightarrow> string \<Rightarrow> (string \<rightharpoonup> fl) \<Rightarrow> fl \<times> fl" where
  "coord xc yc r = (the (r xc), the (r yc))"

text \<open>
  The body of the loop \<open>for i in range(1, len(coords))\<close>; the state is
  \<open>(retained_indices, last_retained_point)\<close>.
\<close>

definition filter_step ::
  "fl \<Rightarrow> (fl \<times> fl) list \<Rightarrow> nat list \<times> (fl \<times> fl) \<Rightarrow> nat \<Rightarrow> nat list \<times> (fl \<times> fl)" where
  "filter_step md coords st i =
     (let distance = norm_diff (coords ! i) (snd st)
      in if fl_ge distance md then (fst st @ [i], coords ! i) else st)"

definition retained_indices :: "fl \<Rightarrow> (fl \<times> fl) list \<Rightarrow> nat list" where
  "retained_indices md coords =
     fst (foldl (filter_step md coords) ([0], coords ! 0) [1..<length coords])"

definition data_filter_points_by_distance ::
  "fl dataframe \<Rightarrow> config \<Rightarrow> error + fl dataframe" where
  "data_filter_points_by_distance df cfg =
     (case x_col cfg of None \<Rightarrow> Inl (KeyError ''x_col'') | Some xc \<Rightarrow>
     (case y_col cfg of None \<Rightarrow> Inl (KeyError ''y_col'') | Some yc \<Rightarrow>
     (case min_distance cfg of None \<Rightarrow> Inl (KeyError ''min_distance'') | Some md \<Rightarrow>
        if df_empty df then Inr df
        else (case find (\<lambda>col. col \<notin> set (columns df)) [xc, yc] of
               Some col \<Rightarrow> Inl (MissingColumn col)
             | None \<Rightarrow>
                 Inr (set_scalar_column ''min_distance'' md
                        (iloc (retained_indices md (map (coord xc yc) (rows df))) df))))))"

text \<open>
  The Resampler as the specification words it: the first sample is kept, and a later
  sample is kept exactly when it is far enough from the most recently kept one. What
  far enough means is the parameter \<open>far\<close>.
\<close>

fun retain_after ::
  "(fl \<times> fl \<Rightarrow> fl \<times> fl \<Rightarrow> bool) \<Rightarrow> ('r \<Rightarrow> fl \<times> fl) \<Rightarrow> fl \<times> fl \<Rightarrow> 'r list \<Rightarrow> 'r list" where
  "retain_after far c lastp [] = []"
| "retain_after far c lastp (r # rs) =
     (if far (c r) lastp then r # retain_after far c (c r) rs
      else retain_after far c lastp rs)"

fun resample_spec ::
  "(fl \<times> fl \<Rightarrow> fl \<times> fl \<Rightarrow> bool) \<Rightarrow> ('r \<Rightarrow> fl \<times> fl) \<Rightarrow> 'r list \<Rightarrow> 'r list" where
  "resample_spec far c [] = []"
| "resample_spec far c (r # rs) = r # retain_after far c (c r) rs"

text \<open>
  The Euclidean distance of two points of the plane, computed exactly; and the two
  readings of far enough: the distance of the specification, and the norm the code
  computes.
\<close>

definition euclid :: "fl \<times> fl \<Rightarrow> fl \<times> fl \<Rightarrow> fl" where
  "euclid p q =
     fl_sqrt (fl_add (fl_square (fl_sub (fst p) (fst q))) (fl_square (fl_sub (snd p) (snd q))))"

definition far_euclid :: "fl \<Rightarrow> fl \<times> fl \<Rightarrow> fl \<times> fl \<Rightarrow> bool" where
  "far_euclid md p q = fl_ge (euclid p q) md"

definition far_computed :: "fl \<Rightarrow> fl \<times> fl \<Rightarrow> fl \<times> fl \<Rightarrow> bool" where
  "far_computed md p q = fl_ge (norm_diff p q) md"

section \<open>The Temporal Differencer\<close>

text \<open>
  A \<open>datetime64[ns]\<close> value: nanoseconds since the epoch, or NaT. A difference of two of
  them (\<open>timedelta64[ns]\<close>) is a number of nanoseconds, or NaT (\<open>None\<close>).
\<close>

datatype stamp = NaT | Stamp int

text \<open>The cells of a frame on its way through \<open>parse_time_and_compute_dt\<close>.\<close>

datatype tcell = Raw string | Time stamp | Secs fl

fun stamp_sub :: "stamp \<Rightarrow> stamp \<Rightarrow> int option" where
  "stamp_sub (Stamp a) (Stamp b) = Some (a - b)"
| "stamp_sub _ _ = None"

text \<open>\<open>Series.diff()\<close> on a datetime column: no value in the first row.\<close>

fun stamp_diff :: "stamp list \<Rightarrow> int option list" where
  "stamp_diff [] = []"
| "stamp_diff (t # ts) = None # map2 stamp_sub ts (t # ts)"

text \<open>\<open>.dt.total_seconds()\<close>: a missing difference becomes NaN.\<close>

fun total_seconds :: "int option \<Rightarrow> fl" where
  "total_seconds None = NaN"
| "total_seconds (Some ns) = Num (real_of_int ns / 1000000000)"

text \<open>
  \<open>pd.to_datetime\<close> is the parameter \<open>to_datetime\<close>: it gives the parsed value of one
  cell, or \<open>None\<close> for a cell it cannot parse, in which case the call raises.
\<close>

definition parse_time_and_compute_dt ::
  "(tcell \<Rightarrow> stamp option) \<Rightarrow> tcell dataframe \<Rightarrow> string \<Rightarrow> error + tcell dataframe" where
  "parse_time_and_compute_dt to_datetime df datetime_col =
     (if datetime_col \<notin> set (columns df) then Inl (KeyError datetime_col)
      else (case those (map to_datetime (column datetime_col df)) of
              None \<Rightarrow> Inl TimestampParseError
            | Some ts \<Rightarrow>
                Inr (set_column ''dt'' (map (Secs \<circ> total_seconds) (stamp_diff ts))
                       (set_column datetime_col (map Time ts) df))))"

section \<open>The Kinematics Estimator\<close>

text \<open>
  The heading is computed with the exact operations: \<open>arctan2\<close> and \<open>degrees\<close> are
  library functions whose last digit the model does not fix, and what is stated of the
  heading (its range, its value for a step east or north, its undefined first row) does
  not depend on it. The yaw rate, further down, is computed in float64.
\<close>


text \<open>The angle of the point \<open>(x, y)\<close>, in \<open>(-pi, pi]\<close>.\<close>

definition atan2 :: "real \<Rightarrow> real \<Rightarrow> real" where
  "atan2 y x =
     (if 0 < x then arctan (y / x)
      else if x < 0 then (if 0 \<le> y then arctan (y / x) + pi else arctan (y / x) - pi)
      else if 0 < y then pi / 2
      else if y < 0 then - (pi / 2)
      else 0)"



text \<open>Python's \<open>a % m\<close> on reals, for a divisor \<open>m > 0\<close>: the result has the sign of \<open>m\<close>.\<close>

definition rmod :: "real \<Rightarrow> real \<Rightarrow> real" where
  "rmod a m = a - m * of_int \<lfloor>a / m\<rfloor>"


text \<open>\<open>config.get(key, default)\<close>.\<close>

definition get_default :: "'a option \<Rightarrow> 'a \<Rightarrow> 'a" where
  "get_default v d = (case v of None \<Rightarrow> d | Some a \<Rightarrow> a)"



text \<open>\<open>Series.diff()\<close> as float64 computes it: the subtraction rounds.\<close>

fun diff64 :: "fl list \<Rightarrow> fl list" where
  "diff64 [] = []"
| "diff64 (v # vs) = NaN # map2 sub64 vs (v # vs)"

text \<open>\<open>(heading_diff + 180) % 360 - 180\<close> on float64.\<close>

definition wrap180 :: "fl \<Rightarrow> fl" where
  "wrap180 d = sub64 (mod64 (add64 d (Num 180)) 360) (Num 180)"

text \<open>Steps 1 and 2 of the yaw rate: the wrapped difference of consecutive headings.\<close>

definition wrapped_heading_diff :: "fl list \<Rightarrow> fl list" where
  "wrapped_heading_diff hs = map wrap180 (diff64 hs)"

definition data_compute_yaw_rate_from_heading ::
  "fl dataframe \<Rightarrow> config \<Rightarrow> error + fl dataframe" where
  "data_compute_yaw_rate_from_heading df cfg =
     (let hc = get_default (heading_col cfg) ''heading_deg'';
          dc = get_default (dt_col cfg) ''dt''
      in if hc \<notin> set (columns df) \<or> dc \<notin> set (columns df)
         then Inl (RequiredColumns hc dc)
         else let heading_diff = wrapped_heading_diff (column hc df);
                  dt_vals = column dc df;
                  yaw_rate_deg_s = map2 div64 heading_diff dt_vals
              in Inr (set_column ''yaw_rate_deg_s'' yaw_rate_deg_s df))"

section \<open>The Projector\<close>

text \<open>\<open>s.replace(old, new)\<close> for a non-empty \<open>old\<close>.\<close>

function replace :: "string \<Rightarrow> string \<Rightarrow> string \<Rightarrow> string" where
  "replace old new [] = []"
| "replace old new (c # cs) =
     (if old \<noteq> [] \<and> prefix old (c # cs)
      then new @ replace old new (drop (length old) (c # cs))
      else c # replace old new cs)"
  by pat_completeness auto
termination
  by (relation "measure (\<lambda>(old, new, s). length s)") (auto simp: neq_Nil_conv)

text \<open>\<open>s.split("_")[-1]\<close>: what follows the last underscore.\<close>

definition last_part :: "string \<Rightarrow> string" where
  "last_part s = rev (takeWhile (\<lambda>c. c \<noteq> CHR ''_'') (rev s))"

text \<open>
  The projection itself and the recording of the method, once the two source columns
  are chosen. \<open>transform\<close> is the pyproj transformer on one point \<open>(lon, lat)\<close>;
  \<open>str_cell\<close> turns a string into a cell.
\<close>

definition project_columns ::
  "('c \<Rightarrow> 'c \<Rightarrow> 'c \<times> 'c) \<Rightarrow> (string \<Rightarrow> 'c) \<Rightarrow> string \<Rightarrow> string \<Rightarrow> string \<Rightarrow>
   'c dataframe \<Rightarrow> error + 'c dataframe" where
  "project_columns transform str_cell lat lon selected_method df =
     (if lon \<notin> set (columns df) then Inl (KeyError lon)
      else if lat \<notin> set (columns df) then Inl (KeyError lat)
      else let pts = map2 transform (column lon df) (column lat df)
           in Inr (set_scalar_column ''selected_smoothing_method'' (str_cell selected_method)
                     (set_column ''y'' (map snd pts) (set_column ''x'' (map fst pts) df))))"

text \<open>
  \<open>ask_user default options\<close> is the dialog: what the user leaves in the dropdown,
  which shows \<open>default\<close> when it opens and offers \<open>options\<close>.
\<close>

definition data_convert_to_planar ::
  "(string \<Rightarrow> string list \<Rightarrow> string) \<Rightarrow> ('c \<Rightarrow> 'c \<Rightarrow> 'c \<times> 'c) \<Rightarrow> (string \<Rightarrow> 'c) \<Rightarrow>
   'c dataframe \<Rightarrow> config \<Rightarrow> error + 'c dataframe" where
  "data_convert_to_planar ask_user transform str_cell df cfg =
     (let smoothed_lat_columns = filter (prefix ''GPS_lat_smooth_'') (columns df);
          smoothed_lon_columns = map (replace ''GPS_lat'' ''GPS_lon'') smoothed_lat_columns
      in if length smoothed_lat_columns > 1 then
           (let selected_method =
                  ask_user (last_part (hd smoothed_lat_columns))
                    (map last_part smoothed_lat_columns);
                lat = ''GPS_lat_smooth_'' @ selected_method;
                lon = ''GPS_lon_smooth_'' @ selected_method
            in if lat \<notin> set (columns df) \<or> lon \<notin> set (columns df)
               then Inl (InvalidSelection selected_method)
               else project_columns transform str_cell lat lon selected_method df)
         else if length smoothed_lat_columns = 1 then
           project_columns transform str_cell (hd smoothed_lat_columns)
             (hd smoothed_lon_columns) (last_part (hd smoothed_lat_columns)) df
         else (case lat_col cfg of None \<Rightarrow> Inl (KeyError ''lat_col'') | Some lat \<Rightarrow>
              (case lon_col cfg of None \<Rightarrow> Inl (KeyError ''lon_col'') | Some lon \<Rightarrow>
                 project_columns transform str_cell lat lon ''none'' df)))"

section \<open>The Smoothing Stage\<close>

text \<open>
  Modelled from the spec: \<open>scipy.signal.savgol_filter\<close>, which the sources only call.
  The specification requires the window length to be at most the trace length, and a
  \<open>SmoothingWindowError\<close> when the trace is shorter than the window; the smoothing of a
  long enough signal is the parameter \<open>smooth\<close>.
\<close>

definition savgol_filter ::
  "(fl list \<Rightarrow> fl list) \<Rightarrow> fl list \<Rightarrow> nat \<Rightarrow> nat \<Rightarrow> error + fl list" where
  "savgol_filter smooth xs window_length polyorder =
     (if length xs < window_length then Inl SmoothingWindowError else Inr (smooth xs))"

text \<open>\<open>df[name] = vs\<close> for an array of any length: pandas refuses a wrong length.\<close>

definition assign_column :: "string \<Rightarrow> 'c list \<Rightarrow> 'c dataframe \<Rightarrow> error + 'c dataframe" where
  "assign_column name vs df =
     (if length vs = length (rows df) then Inr (set_column name vs df) else Inl LengthMismatch)"

definition smooth_column ::
  "(fl list \<Rightarrow> fl list) \<Rightarrow> string \<Rightarrow> fl dataframe \<Rightarrow> error + fl dataframe" where
  "smooth_column smooth col df =
     (if col \<notin> set (columns df) then Inl (KeyError col)
      else (case savgol_filter smooth (column col df) 51 2 of
              Inl e \<Rightarrow> Inl e
            | Inr vs \<Rightarrow> assign_column (col @ ''_smooth_savitzky'') vs df))"

definition data_smooth_gps_savitzky ::
  "(fl list \<Rightarrow> fl list) \<Rightarrow> fl dataframe \<Rightarrow> config \<Rightarrow> error + fl dataframe" where
  "data_smooth_gps_savitzky smooth df cfg =
     (if lat_col cfg = None \<or> lon_col cfg = None
      then Inl (KeyError ''Configuration must include lat_col and lon_col.'')
      else (case smooth_column smooth (the (lat_col cfg)) df of
              Inl e \<Rightarrow> Inl e
            | Inr df1 \<Rightarrow> smooth_column smooth (the (lon_col cfg)) df1))"

section \<open>Derived notions and example traces\<close>

text \<open>Two passes of the Resampler with the same configuration.\<close>

definition resample_twice :: "fl dataframe \<Rightarrow> config \<Rightarrow> error + fl dataframe" where
  "resample_twice df cfg =
     (case data_filter_points_by_distance df cfg of
        Inl e \<Rightarrow> Inl e
      | Inr df1 \<Rightarrow> data_filter_points_by_distance df1 cfg)"

text \<open>Every row is far enough from the row before it.\<close>

fun spaced :: "(fl \<times> fl \<Rightarrow> fl \<times> fl \<Rightarrow> bool) \<Rightarrow> ('r \<Rightarrow> fl \<times> fl) \<Rightarrow> 'r list \<Rightarrow> bool" where
  "spaced far c [] = True"
| "spaced far c [r] = True"
| "spaced far c (r # r' # rs) = (far (c r') (c r) \<and> spaced far c (r' # rs))"

text \<open>A float that is zero or more, \<open>+inf\<close> included.\<close>

fun nonneg :: "fl \<Rightarrow> bool" where
  "nonneg (Num a) = (0 \<le> a)"
| "nonneg PInf = True"
| "nonneg _ = False"

text \<open>Both coordinates of every row are finite numbers.\<close>

definition finite_coords :: "string \<Rightarrow> string \<Rightarrow> fl dataframe \<Rightarrow> bool" where
  "finite_coords xc yc df =
     list_all (\<lambda>r. (case r xc of Some (Num a) \<Rightarrow> True | _ \<Rightarrow> False)
                \<and> (case r yc of Some (Num b) \<Rightarrow> True | _ \<Rightarrow> False)) (rows df)"

definition ex_row :: "real \<Rightarrow> real \<Rightarrow> (string \<rightharpoonup> fl)" where
  "ex_row a b = [''x'' \<mapsto> Num a, ''y'' \<mapsto> Num b]"

definition ex_cfg :: "fl \<Rightarrow> config" where
  "ex_cfg md =
     \<lparr>lat_col = Some ''GPS_lat'', lon_col = Some ''GPS_lon'', x_col = Some ''x'',
      y_col = Some ''y'', heading_col = None, dt_col = None, min_distance = Some md\<rparr>"

definition ex_trace :: "fl dataframe" where
  "ex_trace =
     \<lparr>columns = [''x'', ''y''], rows = [ex_row 0 0, ex_row 0 0, ex_row 1 0, ex_row 1 1]\<rparr>"

definition two_trace :: "fl dataframe" where
  "two_trace = \<lparr>columns = [''x'', ''y''], rows = [ex_row 0 0, ex_row 0 0]\<rparr>"

text \<open>A trace whose x coordinate lives in a column named \<open>min_distance\<close>.\<close>

definition cx_row :: "real \<Rightarrow> real \<Rightarrow> (string \<rightharpoonup> fl)" where
  "cx_row a b = [''min_distance'' \<mapsto> Num a, ''y'' \<mapsto> Num b]"

definition cx_trace :: "fl dataframe" where
  "cx_trace = \<lparr>columns = [''min_distance'', ''y''], rows = [cx_row 0 0, cx_row 1 0]\<rparr>"

definition cx_cfg :: config where
  "cx_cfg =
     \<lparr>lat_col = None, lon_col = None, x_col = Some ''min_distance'', y_col = Some ''y'',
      heading_col = None, dt_col = None, min_distance = Some (Num 1)\<rparr>"

text \<open>A trace with a missing position in its second row.\<close>

definition nan_row :: "string \<rightharpoonup> fl" where
  "nan_row = [''x'' \<mapsto> NaN, ''y'' \<mapsto> Num 0]"

definition nan_trace :: "fl dataframe" where
  "nan_trace = \<lparr>columns = [''x'', ''y''], rows = [ex_row 0 0, nan_row, ex_row 1 0]\<rparr>"

text \<open>Traces without planar columns: one with no rows, one with a single row.\<close>

definition empty_trace :: "fl dataframe" where
  "empty_trace = \<lparr>columns = [''GPS_lat'', ''GPS_lon''], rows = []\<rparr>"

definition unprojected_trace :: "fl dataframe" where
  "unprojected_trace =
     \<lparr>columns = [''GPS_lat'', ''GPS_lon''],
      rows = [[''GPS_lat'' \<mapsto> Num 52, ''GPS_lon'' \<mapsto> Num 13]]\<rparr>"


definition heading_cfg :: config where
  "heading_cfg = \<lparr>lat_col = None, lon_col = None, x_col = Some ''x'', y_col = Some ''y'',
      heading_col = None, dt_col = None, min_distance = None\<rparr>"

text \<open>Headings that cross north twice, with a zero time step in the last row.\<close>

definition yaw_row :: "fl \<Rightarrow> fl \<Rightarrow> (string \<rightharpoonup> fl)" where
  "yaw_row h dt = [''heading_deg'' \<mapsto> h, ''dt'' \<mapsto> dt]"

definition yaw_trace :: "fl dataframe" where
  "yaw_trace = \<lparr>columns = [''heading_deg'', ''dt''],
      rows = [yaw_row (Num 359) NaN, yaw_row (Num 1) (Num 1), yaw_row (Num 359) (Num 0)]\<rparr>"

text \<open>
  Two points \<open>2 ^ 600\<close> apart, whose squared distance exceeds every double, with a
  threshold of \<open>2 ^ 1000\<close>; and two
  headings, the double next above 180 and 0, whose difference lies just below \<open>-180\<close>.
\<close>

definition big :: real where
  "big = 2 ^ 600"

definition big_threshold :: real where
  "big_threshold = 2 ^ 1000"

definition big_trace :: "fl dataframe" where
  "big_trace = \<lparr>columns = [''x'', ''y''], rows = [ex_row 0 0, ex_row big 0]\<rparr>"

definition seam :: real where
  "seam = 180 + 1 / 2 ^ 45"

definition seam_trace :: "fl dataframe" where
  "seam_trace = \<lparr>columns = [''heading_deg'', ''dt''],
      rows = [yaw_row (Num seam) NaN, yaw_row (Num 0) (Num 1)]\<rparr>"

text \<open>
  A parser for the timestamps of the example, and a trace whose third timestamp is
  earlier than its second.
\<close>

definition ex_to_datetime :: "tcell \<Rightarrow> stamp option" where
  "ex_to_datetime c =
     (case c of
        Raw s \<Rightarrow> map_of [(''2024-04-02 10:00:00'', Stamp 1712052000000000000),
                          (''2024-04-02 10:00:02'', Stamp 1712052002000000000),
                          (''2024-04-02 10:00:01'', Stamp 1712052001000000000),
                          ('''', NaT)] s
      | Time t \<Rightarrow> Some t
      | Secs v \<Rightarrow> None)"

definition time_trace :: "tcell dataframe" where
  "time_trace = \<lparr>columns = [''DatumZeit''],
      rows = [[''DatumZeit'' \<mapsto> Raw ''2024-04-02 10:00:00''],
              [''DatumZeit'' \<mapsto> Raw ''2024-04-02 10:00:02''],
              [''DatumZeit'' \<mapsto> Raw ''2024-04-02 10:00:01'']]\<rparr>"

text \<open>
  Cells of a frame that also holds strings; a user who leaves the dialog as it opens; a
  stand-in for the projection; a trace with two smoothed variants, and one whose smoothed
  latitudes have no smoothed longitudes.
\<close>

datatype pcell = PNum fl | PStr string

definition keep_default :: "string \<Rightarrow> string list \<Rightarrow> string" where
  "keep_default d opts = d"

definition ex_transform :: "pcell \<Rightarrow> pcell \<Rightarrow> pcell \<times> pcell" where
  "ex_transform lon lat = (lon, lat)"

definition smoothed_row :: "string \<rightharpoonup> pcell" where
  "smoothed_row =
     [''GPS_lat'' \<mapsto> PNum (Num 52), ''GPS_lon'' \<mapsto> PNum (Num 13),
      ''GPS_lat_smooth_savitzky'' \<mapsto> PNum (Num 52.1), ''GPS_lon_smooth_savitzky'' \<mapsto> PNum (Num 13.1),
      ''GPS_lat_smooth_gaussian'' \<mapsto> PNum (Num 52.2), ''GPS_lon_smooth_gaussian'' \<mapsto> PNum (Num 13.2)]"

definition smoothed_trace :: "pcell dataframe" where
  "smoothed_trace =
     \<lparr>columns = [''GPS_lat'', ''GPS_lon'', ''GPS_lat_smooth_savitzky'', ''GPS_lon_smooth_savitzky'',
                 ''GPS_lat_smooth_gaussian'', ''GPS_lon_smooth_gaussian''],
      rows = [smoothed_row]\<rparr>"

definition lat_only_trace :: "pcell dataframe" where
  "lat_only_trace =
     \<lparr>columns = [''GPS_lat'', ''GPS_lon'', ''GPS_lat_smooth_savitzky'', ''GPS_lat_smooth_gaussian''],
      rows = []\<rparr>"

section \<open>Properties of rounding\<close>

lemma pow2_powr: "pow2 e = 2 powr of_int e"
  by (simp add: pow2_def powr_int)

lemma pow2_pos: "0 < pow2 e"
  by (simp add: pow2_def)

lemma pow2_add: "pow2 (a + b) = pow2 a * pow2 b"
  by (simp add: pow2_powr powr_add)

lemma pow2_mono: "a \<le> b \<Longrightarrow> pow2 a \<le> pow2 b"
  by (simp add: pow2_powr)

lemma pow2_nat: "pow2 (int n) = 2 ^ n"
  by (simp add: pow2_def)

lemma round_even_cases:
  "round_even r = \<lfloor>r\<rfloor> \<or> (round_even r = \<lfloor>r\<rfloor> + 1 \<and> of_int \<lfloor>r\<rfloor> < r)"
  unfolding round_even_def Let_def by (auto; linarith)

lemma round_even_ge: "of_int a \<le> r \<Longrightarrow> a \<le> round_even r"
proof -
  assume "of_int a \<le> r"
  then have "a \<le> \<lfloor>r\<rfloor>" by (simp add: le_floor_iff)
  then show ?thesis using round_even_cases[of r] by linarith
qed

lemma round_even_le: "r \<le> of_int b \<Longrightarrow> round_even r \<le> b"
proof -
  assume rb: "r \<le> of_int b"
  then have 1: "\<lfloor>r\<rfloor> \<le> b" by (simp add: floor_le_iff)
  have "\<lfloor>r\<rfloor> < b" if "of_int \<lfloor>r\<rfloor> < r"
  proof -
    have "real_of_int \<lfloor>r\<rfloor> < of_int b" using that rb by linarith
    then show ?thesis by simp
  qed
  then show ?thesis using 1 round_even_cases[of r] by linarith
qed

lemma round_even_of_int: "round_even (of_int a) = a"
  by (simp add: round_even_def)

lemma binade:
  assumes "x \<noteq> 0"
  shows "pow2 \<lfloor>log 2 \<bar>x\<bar>\<rfloor> \<le> \<bar>x\<bar> \<and> \<bar>x\<bar> < pow2 (\<lfloor>log 2 \<bar>x\<bar>\<rfloor> + 1)"
  using floor_log_eq_powr_iff[of "\<bar>x\<bar>" 2 "\<lfloor>log 2 \<bar>x\<bar>\<rfloor>"] assms
  by (simp add: pow2_powr)

lemma binade_eq:
  assumes "pow2 k \<le> \<bar>x\<bar>" "\<bar>x\<bar> < pow2 (k + 1)"
  shows "\<lfloor>log 2 \<bar>x\<bar>\<rfloor> = k"
proof -
  have "0 < \<bar>x\<bar>" using assms(1) pow2_pos[of k] by linarith
  then show ?thesis
    using floor_log_eq_powr_iff[of "\<bar>x\<bar>" 2 k] assms by (simp add: pow2_powr)
qed

lemma pow2_less_cancel: "pow2 a < pow2 b \<Longrightarrow> a < b"
  by (simp add: pow2_powr)

lemma pow2_diff_nat: "b \<le> a \<Longrightarrow> pow2 a / pow2 b = 2 ^ nat (a - b)"
proof -
  assume ba: "b \<le> a"
  have "pow2 a = pow2 (b + (a - b))" by simp
  also have "\<dots> = pow2 b * pow2 (a - b)" by (rule pow2_add)
  also have "pow2 (a - b) = 2 ^ nat (a - b)" using ba by (simp add: pow2_def)
  finally show ?thesis using pow2_pos[of b] by simp
qed

lemma ulp_exp_le:
  assumes "x \<noteq> 0" "\<bar>x\<bar> < pow2 (e + 53)" "- 1074 \<le> e"
  shows "ulp_exp x \<le> e"
proof -
  have "pow2 \<lfloor>log 2 \<bar>x\<bar>\<rfloor> < pow2 (e + 53)" using binade[OF assms(1)] assms(2) by linarith
  then have "\<lfloor>log 2 \<bar>x\<bar>\<rfloor> < e + 53" by (rule pow2_less_cancel)
  then show ?thesis using assms(3) by (simp add: ulp_exp_def)
qed

text \<open>
  Every double is left as it is: a number \<open>M * 2 ^ e\<close> with a significand of at most
  53 bits, an exponent of at least -1074 and a magnitude below \<open>2 ^ 1024\<close>.
\<close>

lemma round64_repr:
  assumes "\<bar>M\<bar> < 2 ^ 53" "- 1074 \<le> e" "\<bar>of_int M * pow2 e\<bar> < 2 ^ 1024"
  shows "round64 (of_int M * pow2 e) = Num (of_int M * pow2 e)"
proof (cases "M = 0")
  case True
  then show ?thesis by (simp add: round64_def)
next
  case False
  let ?x = "real_of_int M * pow2 e"
  have x0: "?x \<noteq> 0" using False pow2_pos[of e] by simp
  have "\<bar>real_of_int M\<bar> < 2 ^ 53" using assms(1) by (metis of_int_abs of_int_less_numeral_power_cancel_iff)
  then have "\<bar>?x\<bar> < 2 ^ 53 * pow2 e"
    using pow2_pos[of e] by (simp add: abs_mult)
  also have "\<dots> = pow2 (e + 53)" using pow2_add[of e 53] by (simp add: pow2_def)
  finally have E: "ulp_exp ?x \<le> e" using ulp_exp_le[OF x0 _ assms(2)] by blast
  let ?u = "pow2 (ulp_exp ?x)"
  have "?x / ?u = of_int M * (pow2 e / ?u)" by simp
  also have "\<dots> = of_int (M * 2 ^ nat (e - ulp_exp ?x))"
    using pow2_diff_nat[OF E] by simp
  finally have q: "?x / ?u = of_int (M * 2 ^ nat (e - ulp_exp ?x))" .
  have "of_int (round_even (?x / ?u)) * ?u = (?x / ?u) * ?u"
    unfolding q round_even_of_int ..
  also have "\<dots> = ?x" using pow2_pos[of "ulp_exp ?x"] by simp
  finally have y: "of_int (round_even (?x / ?u)) * ?u = ?x" .
  show ?thesis
    using x0 assms(3) unfolding round64_def Let_def y by simp
qed

text \<open>
  Rounding does not cross an integer below \<open>2 ^ 53\<close> in magnitude: a number between two
  such integers rounds to a double between them.
\<close>

lemma round64_sandwich:
  assumes "of_int m \<le> x" "x \<le> of_int n" "\<bar>m\<bar> < 2 ^ 53" "\<bar>n\<bar> < 2 ^ 53"
  shows "\<exists>y. round64 x = Num y \<and> of_int m \<le> y \<and> y \<le> of_int n"
proof (cases "x = 0")
  case True
  then show ?thesis using assms by (simp add: round64_def)
next
  case False
  have mb: "\<bar>real_of_int m\<bar> < 2 ^ 53" and nb: "\<bar>real_of_int n\<bar> < 2 ^ 53"
    using assms(3,4) by (metis of_int_abs of_int_less_numeral_power_cancel_iff)+
  then have "\<bar>x\<bar> < 2 ^ 53" using assms(1,2) by linarith
  also have "(2::real) ^ 53 = pow2 (0 + 53)" by (simp add: pow2_def)
  finally have E: "ulp_exp x \<le> 0" using ulp_exp_le[OF False] by simp
  let ?u = "pow2 (ulp_exp x)"
  let ?P = "(2::int) ^ nat (0 - ulp_exp x)"
  have u: "1 / ?u = of_int ?P" using pow2_diff_nat[OF E] by (simp add: pow2_def)
  have up: "0 < ?u" by (rule pow2_pos)
  have "x / ?u = x * (1 / ?u)" by simp
  then have q: "x / ?u = x * of_int ?P" unfolding u .
  have Pp: "0 < real_of_int ?P" by simp
  have "of_int (m * ?P) \<le> x / ?u" unfolding q using assms(1) Pp by (simp del: of_int_power)
  then have lo: "m * ?P \<le> round_even (x / ?u)" by (rule round_even_ge)
  have "x / ?u \<le> of_int (n * ?P)" unfolding q using assms(2) Pp by (simp del: of_int_power)
  then have hi: "round_even (x / ?u) \<le> n * ?P" by (rule round_even_le)
  let ?y = "of_int (round_even (x / ?u)) * ?u"
  have Pu: "real_of_int ?P * ?u = 1" using u up by (simp add: field_simps)
  have "real_of_int (m * ?P) * ?u \<le> ?y" using lo up by (simp only: mult_le_cancel_right_pos of_int_le_iff)
  then have ylo: "of_int m \<le> ?y" using Pu by (simp add: mult.assoc del: of_int_power)
  have "?y \<le> real_of_int (n * ?P) * ?u" using hi up by (simp only: mult_le_cancel_right_pos of_int_le_iff)
  then have yhi: "?y \<le> of_int n" using Pu by (simp add: mult.assoc del: of_int_power)
  have "\<bar>?y\<bar> < 2 ^ 53" using ylo yhi mb nb by linarith
  also have "(2::real) ^ 53 \<le> 2 ^ 1024" by (rule power_increasing) simp_all
  finally have "\<not> 2 ^ 1024 \<le> \<bar>?y\<bar>" by simp
  then show ?thesis using False ylo yhi unfolding round64_def Let_def by simp
qed

lemma round64_int:
  "\<bar>n\<bar> < 2 ^ 53 \<Longrightarrow> round64 (of_int n) = Num (of_int n)"
  using round64_sandwich[of n "of_int n" n] by auto

text \<open>Rounding keeps the sign, never gives NaN, and overflows from \<open>2 ^ 1024\<close> on.\<close>

lemma round64_nonneg:
  assumes "0 \<le> x"
  shows "round64 x = PInf \<or> (\<exists>y. round64 x = Num y \<and> 0 \<le> y)"
proof (cases "x = 0")
  case True
  then show ?thesis by (simp add: round64_def)
next
  case False
  let ?u = "pow2 (ulp_exp x)"
  have "of_int 0 \<le> x / ?u" using assms pow2_pos[of "ulp_exp x"] by simp
  then have "0 \<le> round_even (x / ?u)" by (rule round_even_ge)
  then have "0 \<le> of_int (round_even (x / ?u)) * ?u" using pow2_pos[of "ulp_exp x"] by simp
  then show ?thesis using False assms unfolding round64_def Let_def by simp
qed

lemma round64_not_NaN: "round64 x \<noteq> NaN"
  by (simp add: round64_def Let_def)

lemma round64_eval:
  assumes "pow2 k \<le> \<bar>x\<bar>" "\<bar>x\<bar> < pow2 (k + 1)" "- 1022 \<le> k"
  shows "round64 x =
           (let u = pow2 (k - 52); y = of_int (round_even (x / u)) * u
            in if 2 ^ 1024 \<le> \<bar>y\<bar> then (if 0 < x then PInf else NInf) else Num y)"
proof -
  have "x \<noteq> 0" using assms(1) pow2_pos[of k] by auto
  moreover have "ulp_exp x = k - 52"
    using binade_eq[OF assms(1,2)] assms(3) by (simp add: ulp_exp_def)
  ultimately show ?thesis by (simp add: round64_def)
qed

lemma round64_huge:
  assumes "2 ^ 1024 \<le> x"
  shows "round64 x = PInf"
proof -
  have x0: "x \<noteq> 0" "0 < x" using assms by (smt (verit) zero_less_power)+
  let ?k = "\<lfloor>log 2 \<bar>x\<bar>\<rfloor>"
  have b: "pow2 ?k \<le> \<bar>x\<bar>" "\<bar>x\<bar> < pow2 (?k + 1)" using binade[OF x0(1)] by simp_all
  have "pow2 1024 \<le> x" using assms by (simp add: pow2_def)
  then have "pow2 1024 < pow2 (?k + 1)" using b(2) x0 by simp
  then have k: "1024 \<le> ?k" using pow2_less_cancel by fastforce
  then have E: "ulp_exp x = ?k - 52" by (simp add: ulp_exp_def)
  let ?u = "pow2 (?k - 52)"
  have up: "0 < ?u" by (rule pow2_pos)
  define c :: int where "c = 2 ^ 52"
  have ku: "pow2 ?k = of_int c * ?u"
    using pow2_add[of 52 "?k - 52"] by (simp add: pow2_def c_def)
  have "of_int c * ?u \<le> x" using b(1) x0 ku by simp
  then have "of_int c \<le> x / ?u" using up pos_le_divide_eq[of ?u "of_int c" x] by blast
  then have "c \<le> round_even (x / ?u)" by (rule round_even_ge)
  then have "real_of_int c \<le> of_int (round_even (x / ?u))" by (simp only: of_int_le_iff)
  then have "of_int c * ?u \<le> of_int (round_even (x / ?u)) * ?u"
    using up mult_le_cancel_right_pos[of ?u "of_int c"] by blast
  moreover have "2 ^ 1024 \<le> pow2 ?k" using pow2_mono[OF k] by (simp add: pow2_def)
  ultimately have "2 ^ 1024 \<le> \<bar>of_int (round_even (x / ?u)) * ?u\<bar>" using ku by linarith
  then show ?thesis using x0 unfolding round64_def Let_def E by simp
qed

text \<open>
  A tie: \<open>360 - 2 ^ -45\<close> lies halfway between the doubles \<open>360 - 2 ^ -44\<close> and 360, and
  rounds to 360, whose significand is even.
\<close>

lemma round64_tie_360: "round64 (360 - 1 / 2 ^ 45) = Num 360"
proof -
  have "round64 (360 - 1 / 2 ^ 45) =
          (let u = pow2 (8 - 52); y = of_int (round_even ((360 - 1 / 2 ^ 45) / u)) * u
            in if 2 ^ 1024 \<le> \<bar>y\<bar> then (if 0 < (360 - 1 / 2 ^ 45 :: real) then PInf else NInf) else Num y)"
    by (rule round64_eval) (simp_all add: pow2_def)
  also have "\<dots> = Num 360"
    by (simp add: pow2_def round_even_def Let_def)
  finally show ?thesis .
qed

text \<open>Small integers and powers of two are doubles: rounding leaves them as they are.\<close>

lemma round64_0: "round64 0 = Num 0"
  by (simp add: round64_def)

lemma round64_1: "round64 1 = Num 1"
  using round64_int[of 1] by simp

lemma round64_numeral:
  "(numeral k :: int) < 2 ^ 53 \<Longrightarrow> round64 (numeral k) = Num (numeral k)"
  using round64_int[of "numeral k"] by simp

lemma round64_neg_numeral:
  "(numeral k :: int) < 2 ^ 53 \<Longrightarrow> round64 (- numeral k) = Num (- numeral k)"
  using round64_int[of "- numeral k"] by simp

lemma round64_pow2:
  assumes "n < 1024"
  shows "round64 (2 ^ n) = Num (2 ^ n)"
proof -
  have "(2::real) ^ n < 2 ^ 1024" using assms by (intro power_strict_increasing) auto
  then show ?thesis using round64_repr[of 1 "int n"] by (simp add: pow2_nat)
qed

lemma nonneg_round64: "0 \<le> x \<Longrightarrow> nonneg (round64 x)"
  using round64_nonneg[of x] by auto

lemmas round64_simps =
  round64_0 round64_1 round64_numeral round64_neg_numeral

subsection \<open>The norm of a difference\<close>

lemma nonneg_square64: "v \<noteq> NaN \<Longrightarrow> nonneg (square64 v)"
  by (cases v) (simp_all add: nonneg_round64)

lemma nonneg_add64: "nonneg a \<Longrightarrow> nonneg b \<Longrightarrow> nonneg (add64 a b)"
  by (cases a; cases b) (simp_all add: nonneg_round64)

lemma nonneg_sqrt64: "nonneg a \<Longrightarrow> nonneg (sqrt64 a)"
  by (cases a) (simp_all add: nonneg_round64)

lemma sub64_finite: "sub64 (Num a) (Num b) \<noteq> NaN"
  by (simp add: sub64_def round64_not_NaN)

lemma norm_diff_finite: "nonneg (norm_diff (Num a, Num b) (Num a', Num b'))"
  unfolding norm_diff_def
  by (intro nonneg_sqrt64 nonneg_add64 nonneg_square64) (simp_all add: sub64_finite)

lemma fl_ge_nonneg: "nonneg d \<Longrightarrow> v \<le> 0 \<Longrightarrow> fl_ge d (Num v)"
  by (cases d) simp_all

section \<open>Properties of the Resampler\<close>

lemma filter_loop:
  "k \<le> length rs \<Longrightarrow>
   map ((!) rs) (fst (foldl (filter_step md (map c rs)) (ret, lastp) [k..<length rs]))
     = map ((!) rs) ret @ retain_after (far_computed md) c lastp (drop k rs)"
proof (induction "length rs - k" arbitrary: k ret lastp)
  case 0
  then show ?case by simp
next
  case (Suc d)
  then have k: "k < length rs" by simp
  have upt: "[k..<length rs] = k # [Suc k..<length rs]"
    using k by (simp add: upt_conv_Cons)
  have dr: "drop k rs = rs ! k # drop (Suc k) rs"
    using k by (simp add: Cons_nth_drop_Suc)
  have ih: "\<And>ret' lastp'.
      map ((!) rs) (fst (foldl (filter_step md (map c rs)) (ret', lastp') [Suc k..<length rs]))
        = map ((!) rs) ret' @ retain_after (far_computed md) c lastp' (drop (Suc k) rs)"
    using Suc.hyps(1)[of "Suc k"] Suc.hyps(2) k by simp
  show ?case
    using k by (simp add: upt dr filter_step_def far_computed_def ih)
qed

lemma retained_rows:
  "rs \<noteq> [] \<Longrightarrow>
   map ((!) rs) (retained_indices md (map c rs)) = resample_spec (far_computed md) c rs"
proof -
  assume "rs \<noteq> []"
  then obtain r rs' where rs: "rs = r # rs'" by (cases rs) auto
  have "1 \<le> length rs" using rs by simp
  from filter_loop[OF this, of md c "[0]" "c r"]
  show ?thesis by (simp add: retained_indices_def rs)
qed

lemma subseq_retain_after: "subseq (retain_after far c lastp rs) rs"
  by (induction rs arbitrary: lastp) auto

lemma subseq_resample_spec: "subseq (resample_spec far c rs) rs"
  by (cases rs) (auto simp: subseq_retain_after)

lemma filter_nonempty:
  assumes "x_col cfg = Some xc" "y_col cfg = Some yc" "min_distance cfg = Some md"
    and "\<not> df_empty df" "xc \<in> set (columns df)" "yc \<in> set (columns df)"
  shows "data_filter_points_by_distance df cfg =
           Inr (set_scalar_column ''min_distance'' md
                 \<lparr>columns = columns df,
                  rows = resample_spec (far_computed md) (coord xc yc) (rows df)\<rparr>)"
proof -
  have "rows df \<noteq> []" using assms(4) by (simp add: df_empty_def)
  then have "map ((!) (rows df)) (retained_indices md (map (coord xc yc) (rows df)))
               = resample_spec (far_computed md) (coord xc yc) (rows df)"
    by (rule retained_rows)
  then show ?thesis
    using assms by (simp add: data_filter_points_by_distance_def iloc_def)
qed

lemma retain_after_map:
  "(\<And>r. c (g r) = c r) \<Longrightarrow>
   retain_after far c p (map g rs) = map g (retain_after far c p rs)"
  by (induction rs arbitrary: p) auto

lemma retain_after_idem:
  "retain_after far c p (retain_after far c p rs) = retain_after far c p rs"
  by (induction rs arbitrary: p) auto

lemma resample_spec_map:
  "(\<And>r. c (g r) = c r) \<Longrightarrow>
   resample_spec far c (map g rs) = map g (resample_spec far c rs)"
  by (cases rs) (auto simp: retain_after_map)

lemma resample_spec_idem:
  "resample_spec far c (resample_spec far c rs) = resample_spec far c rs"
  by (cases rs) (auto simp: retain_after_idem)

lemma resample_spec_Nil: "resample_spec far c rs = [] \<longleftrightarrow> rs = []"
  by (cases rs) auto

lemma coord_upd:
  "xc \<noteq> k \<Longrightarrow> yc \<noteq> k \<Longrightarrow> coord xc yc (r(k \<mapsto> v)) = coord xc yc r"
  by (simp add: coord_def)

lemma filter_twice_nonempty:
  assumes cfg: "x_col cfg = Some xc" "y_col cfg = Some yc" "min_distance cfg = Some md"
    and ne: "\<not> df_empty df" and cols: "xc \<in> set (columns df)" "yc \<in> set (columns df)"
    and neq: "xc \<noteq> ''min_distance''" "yc \<noteq> ''min_distance''"
    and out: "out = set_scalar_column ''min_distance'' md
                 \<lparr>columns = columns df,
                  rows = resample_spec (far_computed md) (coord xc yc) (rows df)\<rparr>"
  shows "data_filter_points_by_distance out cfg = Inr out"
proof -
  let ?c = "coord xc yc"
  let ?g = "\<lambda>r::string \<rightharpoonup> fl. r(''min_distance'' \<mapsto> md)"
  let ?R = "resample_spec (far_computed md) ?c (rows df)"
  have rows_out: "rows out = map ?g ?R" and cols_out: "set (columns df) \<subseteq> set (columns out)"
    and md_in: "''min_distance'' \<in> set (columns out)"
    by (auto simp: out set_scalar_column_def)
  have "rows df \<noteq> []" "columns df \<noteq> []" using ne by (auto simp: df_empty_def)
  then have ne_out: "\<not> df_empty out"
    by (auto simp: df_empty_def out set_scalar_column_def resample_spec_Nil)
  have cg: "\<And>r. ?c (?g r) = ?c r" using neq by (simp add: coord_upd)
  have "resample_spec (far_computed md) ?c (rows out) = map ?g ?R"
    by (simp add: rows_out resample_spec_map[of ?c ?g, OF cg] resample_spec_idem)
  then have "set_scalar_column ''min_distance'' md
               \<lparr>columns = columns out,
                rows = resample_spec (far_computed md) ?c (rows out)\<rparr> = out"
    using md_in by (simp add: set_scalar_column_def out)
  moreover have "data_filter_points_by_distance out cfg =
      Inr (set_scalar_column ''min_distance'' md
             \<lparr>columns = columns out,
              rows = resample_spec (far_computed md) ?c (rows out)\<rparr>)"
    using cfg ne_out cols cols_out by (intro filter_nonempty) auto
  ultimately show ?thesis by simp
qed

text \<open>
  Away from the column \<open>min_distance\<close> the Resampler is idempotent: a second pass with
  the same configuration returns what the first pass returned, errors and the empty
  trace included.
\<close>

lemma resample_twice_same:
  assumes "x_col cfg \<noteq> Some ''min_distance''" "y_col cfg \<noteq> Some ''min_distance''"
  shows "resample_twice df cfg = data_filter_points_by_distance df cfg"
proof (cases "\<exists>xc yc md. x_col cfg = Some xc \<and> y_col cfg = Some yc \<and> min_distance cfg = Some md
                \<and> \<not> df_empty df \<and> xc \<in> set (columns df) \<and> yc \<in> set (columns df)")
  case True
  then obtain xc yc md where h: "x_col cfg = Some xc" "y_col cfg = Some yc"
      "min_distance cfg = Some md" "\<not> df_empty df" "xc \<in> set (columns df)" "yc \<in> set (columns df)"
    by blast
  have neq: "xc \<noteq> ''min_distance''" "yc \<noteq> ''min_distance''" using assms h by auto
  show ?thesis
    using filter_nonempty[OF h] filter_twice_nonempty[OF h neq refl]
    by (simp add: resample_twice_def)
next
  case False
  then show ?thesis
    by (auto simp: resample_twice_def data_filter_points_by_distance_def
          split: option.splits if_splits)
qed

lemma spaced_retain_after:
  "spaced far c (r # retain_after far c (c r) rs)"
proof (induction rs arbitrary: r)
  case Nil
  show ?case by simp
next
  case (Cons a rs)
  have "\<not> far (c a) (c r) \<Longrightarrow> ?case"
    using Cons.IH[of r] by simp
  moreover have "far (c a) (c r) \<Longrightarrow> ?case"
    using Cons.IH[of a] by simp
  ultimately show ?case by blast
qed

lemma spaced_resample_spec: "spaced far c (resample_spec far c rs)"
  by (cases rs) (simp_all add: spaced_retain_after)

lemma spaced_map:
  "(\<And>r. c (g r) = c r) \<Longrightarrow> spaced far c (map g rs) = spaced far c rs"
  by (induction far c rs rule: spaced.induct) simp_all

lemma finite_coord:
  assumes "case r xc of Some (Num a) \<Rightarrow> True | _ \<Rightarrow> False"
    and "case r yc of Some (Num b) \<Rightarrow> True | _ \<Rightarrow> False"
  shows "\<exists>a b. coord xc yc r = (Num a, Num b)"
  using assms by (auto simp: coord_def split: option.splits fl.splits)

lemma retain_after_all:
  assumes "v \<le> 0"
    and "list_all (\<lambda>r. \<exists>a b. c r = (Num a, Num b)) rs"
  shows "retain_after (far_computed (Num v)) c (Num a, Num b) rs = rs"
  using assms(2)
proof (induction rs arbitrary: a b)
  case Nil
  show ?case by simp
next
  case (Cons r rs)
  then obtain a' b' where r: "c r = (Num a', Num b')" by auto
  have "far_computed (Num v) (Num a', Num b') (Num a, Num b)"
    unfolding far_computed_def using norm_diff_finite assms(1) by (rule fl_ge_nonneg)
  then show ?case using Cons r by simp
qed

lemma resample_spec_all:
  assumes "v \<le> 0" and "finite_coords xc yc df"
  shows "resample_spec (far_computed (Num v)) (coord xc yc) (rows df) = rows df"
proof (cases "rows df")
  case Nil
  then show ?thesis by simp
next
  case (Cons r rs)
  have all: "list_all (\<lambda>r. \<exists>a b. coord xc yc r = (Num a, Num b)) (rows df)"
    using assms(2) unfolding finite_coords_def list_all_iff
    by (auto intro: finite_coord)
  then obtain a b where "coord xc yc r = (Num a, Num b)" using Cons by auto
  then show ?thesis using all Cons retain_after_all[OF assms(1), of "coord xc yc" rs a b]
    by simp
qed

lemma cx_row_upd: "(cx_row a b)(''min_distance'' \<mapsto> Num c) = cx_row c b"
  by (auto simp: cx_row_def fun_eq_iff)

lemmas resampler_eval =
  data_filter_points_by_distance_def df_empty_def retained_indices_def filter_step_def
  iloc_def set_scalar_column_def coord_def norm_diff_def sub64_def round64_simps

text \<open>
  The norm of the step of \<open>big_trace\<close> overflows: the square of \<open>2 ^ 600\<close> is no double.
\<close>

lemma big_norm: "norm_diff (Num big, Num 0) (Num 0, Num 0) = PInf"
proof -
  have 1: "sub64 (Num big) (Num 0) = Num big"
    using round64_pow2[of 600] by (simp add: sub64_def big_def)
  have "(2::real) ^ 1024 \<le> 2 ^ (600 + 600)"
    by (rule power_increasing) simp_all
  then have "(2::real) ^ 1024 \<le> big * big"
    unfolding big_def power_add .
  then have 2: "square64 (Num big) = PInf"
    using round64_huge[of "big * big"] by simp
  have 3: "square64 (sub64 (Num 0) (Num 0)) = Num 0"
    by (simp add: sub64_def round64_0)
  show ?thesis
    unfolding norm_diff_def fst_conv snd_conv 1 2 3 by simp
qed

lemma big_trace_result:
  "data_filter_points_by_distance big_trace (ex_cfg (Num big_threshold)) =
     Inr \<lparr>columns = [''x'', ''y'', ''min_distance''],
          rows = [(ex_row 0 0)(''min_distance'' \<mapsto> Num big_threshold),
                  (ex_row big 0)(''min_distance'' \<mapsto> Num big_threshold)]\<rparr>"
proof -
  have "coord ''x'' ''y'' (ex_row 0 0) = (Num 0, Num 0)"
    "coord ''x'' ''y'' (ex_row big 0) = (Num big, Num 0)"
    by (simp_all add: coord_def ex_row_def)
  then have "resample_spec (far_computed (Num big_threshold)) (coord ''x'' ''y'') (rows big_trace)
               = [ex_row 0 0, ex_row big 0]"
    by (simp add: big_trace_def far_computed_def big_norm)
  then show ?thesis
    using filter_nonempty[of "ex_cfg (Num big_threshold)" "''x''" "''y''" "Num big_threshold"
        big_trace]
    by (simp add: ex_cfg_def big_trace_def df_empty_def set_scalar_column_def)
qed

lemma big_euclid: "euclid (Num big, Num 0) (Num 0, Num 0) = Num big"
proof -
  have "0 \<le> big" by (simp add: big_def)
  then show ?thesis by (simp add: euclid_def fl_sub_def)
qed

lemma big_not_far: "\<not> far_euclid (Num big_threshold) (Num big, Num 0) (Num 0, Num 0)"
proof -
  have "(2::real) ^ 600 < 2 ^ 1000" by (rule power_strict_increasing) simp_all
  then have "big < big_threshold" unfolding big_def big_threshold_def .
  then show ?thesis unfolding far_euclid_def big_euclid by simp
qed

text \<open>
  Rounding and underflow move the computed norm as well. The point
  \<open>(3 - 2 ^ -51, 4)\<close> lies closer than 5 to the origin, and its computed norm is 5: the
  rounded sum of the squares is a tie that rounds up to 25. And the square of
  \<open>2 ^ -600\<close> underflows to 0.
\<close>

lemma rounded_square: "square64 (Num (3 - 1 / 2 ^ 51)) = Num (9 - 1 / 2 ^ 49)"
proof -
  define x :: real where "x = (3 - 1 / 2 ^ 51) * (3 - 1 / 2 ^ 51)"
  have "round64 x =
          (let u = pow2 (3 - 52); y = of_int (round_even (x / u)) * u
            in if 2 ^ 1024 \<le> \<bar>y\<bar> then (if 0 < x then PInf else NInf) else Num y)"
    by (rule round64_eval) (simp_all add: pow2_def x_def)
  also have "\<dots> = Num (9 - 1 / 2 ^ 49)"
    by (simp add: pow2_def round_even_def Let_def x_def)
  finally show ?thesis by (simp add: x_def)
qed

lemma rounded_sum: "add64 (Num (9 - 1 / 2 ^ 49)) (Num 16) = Num 25"
proof -
  define x :: real where "x = 9 - 1 / 2 ^ 49 + 16"
  have "round64 x =
          (let u = pow2 (4 - 52); y = of_int (round_even (x / u)) * u
            in if 2 ^ 1024 \<le> \<bar>y\<bar> then (if 0 < x then PInf else NInf) else Num y)"
    by (rule round64_eval) (simp_all add: pow2_def x_def)
  also have "\<dots> = Num 25"
    by (simp add: pow2_def round_even_def Let_def x_def)
  finally show ?thesis by (simp add: x_def)
qed

lemma rounded_norm: "norm_diff (Num (3 - 1 / 2 ^ 51), Num 4) (Num 0, Num 0) = Num 5"
proof -
  have r: "round64 (3 - 1 / 2 ^ 51) = Num (3 - 1 / 2 ^ 51)"
    using round64_repr[of "3 * 2 ^ 51 - 1" "- 51"] by (simp add: pow2_def)
  have 1: "sub64 (Num (3 - 1 / 2 ^ 51)) (Num 0) = Num (3 - 1 / 2 ^ 51)"
    using r by (simp add: sub64_def)
  have 2: "square64 (sub64 (Num 4) (Num 0)) = Num 16"
    by (simp add: sub64_def round64_simps)
  have "sqrt 25 = (5::real)" using real_sqrt_abs[of 5] by simp
  then have 3: "sqrt64 (Num 25) = Num 5" by (simp add: round64_simps)
  show ?thesis
    unfolding norm_diff_def fst_conv snd_conv 1 2 rounded_square rounded_sum 3 ..
qed

lemma underflow_square: "square64 (Num (1 / 2 ^ 600)) = Num 0"
proof -
  define x :: real where "x = 1 / 2 ^ 600 * (1 / 2 ^ 600)"
  have x: "x = 1 / 2 ^ 1200" by (simp add: x_def power_add[symmetric] flip: power_mult_distrib)
  have "\<lfloor>log 2 \<bar>x\<bar>\<rfloor> = - 1200"
    by (rule binade_eq) (simp_all add: pow2_def x)
  then have u: "ulp_exp x = - 1074" by (simp add: ulp_exp_def)
  have "x / pow2 (- 1074) = 1 / 2 ^ 126"
    unfolding x pow2_def by (simp add: power_add[symmetric] flip: power_diff)
  then have "round_even (x / pow2 (- 1074)) = 0"
    by (simp add: round_even_def Let_def)
  then have "round64 x = Num 0" unfolding round64_def Let_def u by simp
  then show ?thesis by (simp add: x_def)
qed

lemma rounded_not_far:
  "far_computed (Num 5) (Num (3 - 1 / 2 ^ 51), Num 4) (Num 0, Num 0)
   \<and> \<not> far_euclid (Num 5) (Num (3 - 1 / 2 ^ 51), Num 4) (Num 0, Num 0)"
proof -
  define x :: real where "x = 3 - 1 / 2 ^ 51"
  have x: "0 < x" "x < 3" by (simp_all add: x_def)
  then have "x * x < 3 * 3" by (intro mult_strict_mono) simp_all
  then have "x * x + 4 * 4 < 5\<^sup>2" by (simp add: power2_eq_square)
  then have "sqrt (x * x + 4 * 4) < 5"
    using real_sqrt_less_iff[of "x * x + 4 * 4" "5\<^sup>2"] by simp
  then have "\<not> far_euclid (Num 5) (Num x, Num 4) (Num 0, Num 0)"
    by (simp add: far_euclid_def euclid_def fl_sub_def not_less add_nonneg_nonneg)
  then show ?thesis
    unfolding x_def far_computed_def rounded_norm by simp
qed

text \<open>
  Claim C1, amended. For a non-empty trace that has the planar columns, neither of them
  the column \<open>min_distance\<close>, the Resampler returns the rows that the greedy rule keeps
  when far enough means that the float64 norm \<open>np.linalg.norm\<close> computes for the
  difference of the two points is at least \<open>min_distance\<close>: the first row, then each row
  far enough from the most recently kept one. The output rows are these rows with the
  \<open>min_distance\<close> column added, they have the coordinates of the kept input rows, and
  the kept rows are a subsequence of the input rows, in the input's order.
\<close>

theorem resampler_greedy_subsequence:
  assumes "x_col cfg = Some xc" "y_col cfg = Some yc" "min_distance cfg = Some md"
    and "\<not> df_empty df" "xc \<in> set (columns df)" "yc \<in> set (columns df)"
    and "xc \<noteq> ''min_distance''" "yc \<noteq> ''min_distance''"
  shows "\<exists>out. data_filter_points_by_distance df cfg = Inr out
           \<and> out = set_scalar_column ''min_distance'' md
                 \<lparr>columns = columns df,
                  rows = resample_spec (far_computed md) (coord xc yc) (rows df)\<rparr>
           \<and> map (coord xc yc) (rows out)
               = map (coord xc yc) (resample_spec (far_computed md) (coord xc yc) (rows df))
           \<and> subseq (resample_spec (far_computed md) (coord xc yc) (rows df)) (rows df)"
proof -
  let ?R = "resample_spec (far_computed md) (coord xc yc) (rows df)"
  let ?out = "set_scalar_column ''min_distance'' md \<lparr>columns = columns df, rows = ?R\<rparr>"
  have "data_filter_points_by_distance df cfg = Inr ?out"
    by (rule filter_nonempty[OF assms(1-6)])
  moreover have "map (coord xc yc) (rows ?out) = map (coord xc yc) ?R"
    using assms(7,8) by (simp add: set_scalar_column_def coord_upd)
  moreover have "subseq ?R (rows df)" by (rule subseq_resample_spec)
  ultimately show ?thesis by blast
qed

theorem resampler_greedy_subsequence_witness:
  "data_filter_points_by_distance ex_trace (ex_cfg (Num 0.5)) =
     Inr \<lparr>columns = [''x'', ''y'', ''min_distance''],
          rows = [(ex_row 0 0)(''min_distance'' \<mapsto> Num 0.5),
                  (ex_row 1 0)(''min_distance'' \<mapsto> Num 0.5),
                  (ex_row 1 1)(''min_distance'' \<mapsto> Num 0.5)]\<rparr>
   \<and> subseq [ex_row 0 0, ex_row 1 0, ex_row 1 1] (rows ex_trace)"
  using resampler_greedy_subsequence[of "ex_cfg (Num 0.5)" "''x''" "''y''" "Num 0.5" ex_trace]
  by (simp add: ex_cfg_def ex_trace_def df_empty_def set_scalar_column_def coord_def ex_row_def
      far_computed_def norm_diff_def sub64_def round64_simps)

text \<open>
  The claim as stated, with the Euclidean distance, fails on \<open>big_trace\<close>: the second
  point is \<open>2 ^ 600\<close> away from the first, less than the threshold \<open>2 ^ 1000\<close>, so the rule
  of the specification keeps the first row only; the code keeps both, because the square
  of the distance overflows and the computed norm is \<open>+inf\<close>.
\<close>

theorem resampler_greedy_subsequence_counterexample:
  "data_filter_points_by_distance big_trace (ex_cfg (Num big_threshold)) =
     Inr \<lparr>columns = [''x'', ''y'', ''min_distance''],
          rows = [(ex_row 0 0)(''min_distance'' \<mapsto> Num big_threshold),
                  (ex_row big 0)(''min_distance'' \<mapsto> Num big_threshold)]\<rparr>
   \<and> resample_spec (far_euclid (Num big_threshold)) (coord ''x'' ''y'') (rows big_trace)
       = [ex_row 0 0]"
proof -
  have "coord ''x'' ''y'' (ex_row 0 0) = (Num 0, Num 0)"
    "coord ''x'' ''y'' (ex_row big 0) = (Num big, Num 0)"
    by (simp_all add: coord_def ex_row_def)
  then have "resample_spec (far_euclid (Num big_threshold)) (coord ''x'' ''y'') (rows big_trace)
       = [ex_row 0 0]"
    by (simp add: big_trace_def big_not_far)
  then show ?thesis using big_trace_result by simp
qed

text \<open>
  Claim C2. A second pass with the same configuration should return what the first pass
  returned. It does not when the x coordinate is kept in the column \<open>min_distance\<close>: the
  first pass keeps both rows of \<open>cx_trace\<close> and overwrites their x coordinate with the
  threshold, so the second pass sees two equal points and keeps only one.
\<close>

theorem resampler_twice_collision:
  "data_filter_points_by_distance cx_trace cx_cfg =
     Inr \<lparr>columns = [''min_distance'', ''y''], rows = [cx_row 1 0, cx_row 1 0]\<rparr>
   \<and> resample_twice cx_trace cx_cfg =
     Inr \<lparr>columns = [''min_distance'', ''y''], rows = [cx_row 1 0]\<rparr>
   \<and> resample_twice cx_trace cx_cfg \<noteq> data_filter_points_by_distance cx_trace cx_cfg"
proof -
  have 1: "data_filter_points_by_distance cx_trace cx_cfg =
     Inr \<lparr>columns = [''min_distance'', ''y''], rows = [cx_row 1 0, cx_row 1 0]\<rparr>"
    by (simp add: cx_trace_def cx_cfg_def resampler_eval cx_row_upd) (simp add: cx_row_def round64_simps)
  have 2: "data_filter_points_by_distance
       \<lparr>columns = [''min_distance'', ''y''], rows = [cx_row 1 0, cx_row 1 0]\<rparr> cx_cfg =
     Inr \<lparr>columns = [''min_distance'', ''y''], rows = [cx_row 1 0]\<rparr>"
    by (simp add: cx_cfg_def resampler_eval cx_row_upd) (simp add: cx_row_def round64_simps)
  show ?thesis using 1 2 by (simp add: resample_twice_def)
qed

text \<open>
  Claim C3, amended. For a non-empty trace that has the planar columns, neither of them
  the column \<open>min_distance\<close>: the first input row, with the \<open>min_distance\<close> column added,
  is the first output row; for every consecutive pair of output rows the float64 norm of
  their difference, as the code computes it, is at least \<open>min_distance\<close>; and for
  \<open>min_distance = 0\<close> every row is retained provided all coordinates are finite numbers.
\<close>

theorem resampler_spacing:
  assumes "x_col cfg = Some xc" "y_col cfg = Some yc" "min_distance cfg = Some md"
    and "\<not> df_empty df" "xc \<in> set (columns df)" "yc \<in> set (columns df)"
    and "xc \<noteq> ''min_distance''" "yc \<noteq> ''min_distance''"
  shows "\<exists>out. data_filter_points_by_distance df cfg = Inr out
           \<and> hd (rows out) = (hd (rows df))(''min_distance'' \<mapsto> md)
           \<and> spaced (far_computed md) (coord xc yc) (rows out)
           \<and> (md = Num 0 \<and> finite_coords xc yc df
                \<longrightarrow> rows out = map (\<lambda>r. r(''min_distance'' \<mapsto> md)) (rows df))"
proof -
  let ?c = "coord xc yc"
  let ?g = "\<lambda>r::string \<rightharpoonup> fl. r(''min_distance'' \<mapsto> md)"
  let ?R = "resample_spec (far_computed md) ?c (rows df)"
  let ?out = "set_scalar_column ''min_distance'' md \<lparr>columns = columns df, rows = ?R\<rparr>"
  have res: "data_filter_points_by_distance df cfg = Inr ?out"
    by (rule filter_nonempty[OF assms(1-6)])
  have rows_out: "rows ?out = map ?g ?R"
    by (simp add: set_scalar_column_def)
  obtain r rs where rs: "rows df = r # rs"
    using assms(4) by (cases "rows df") (auto simp: df_empty_def)
  have first: "hd (rows ?out) = (hd (rows df))(''min_distance'' \<mapsto> md)"
    by (simp add: set_scalar_column_def rs)
  have cg: "\<And>r. ?c (?g r) = ?c r" using assms(7,8) by (simp add: coord_upd)
  have sp: "spaced (far_computed md) ?c (rows ?out)"
    unfolding rows_out
    using spaced_map[of ?c ?g "far_computed md", OF cg] spaced_resample_spec[of "far_computed md" ?c]
    by simp
  have all: "rows ?out = map ?g (rows df)" if "md = Num 0" "finite_coords xc yc df"
    unfolding rows_out using resample_spec_all[of 0 xc yc df] that by simp
  show ?thesis using res first sp all by blast
qed

theorem resampler_spacing_witness:
  "data_filter_points_by_distance ex_trace (ex_cfg (Num 0)) =
     Inr \<lparr>columns = [''x'', ''y'', ''min_distance''],
          rows = [(ex_row 0 0)(''min_distance'' \<mapsto> Num 0),
                  (ex_row 0 0)(''min_distance'' \<mapsto> Num 0),
                  (ex_row 1 0)(''min_distance'' \<mapsto> Num 0),
                  (ex_row 1 1)(''min_distance'' \<mapsto> Num 0)]\<rparr>
   \<and> finite_coords ''x'' ''y'' ex_trace
   \<and> spaced (far_computed (Num 0)) (coord ''x'' ''y'')
        [(ex_row 0 0)(''min_distance'' \<mapsto> Num 0),
         (ex_row 0 0)(''min_distance'' \<mapsto> Num 0),
         (ex_row 1 0)(''min_distance'' \<mapsto> Num 0),
         (ex_row 1 1)(''min_distance'' \<mapsto> Num 0)]"
  using resampler_spacing[of "ex_cfg (Num 0)" "''x''" "''y''" "Num 0" ex_trace]
  by (simp add: ex_cfg_def ex_trace_def ex_row_def finite_coords_def far_computed_def
      resampler_eval)

text \<open>
  The claim as stated fails on a trace with a NaN coordinate: at \<open>min_distance = 0\<close> the
  row is dropped, because its distance is NaN and no comparison with NaN holds. It also
  fails on \<open>big_trace\<close>: the two output rows are \<open>2 ^ 600\<close> apart, which is less than the
  threshold \<open>2 ^ 1000\<close>.
\<close>

theorem resampler_spacing_counterexample:
  "data_filter_points_by_distance nan_trace (ex_cfg (Num 0)) =
     Inr \<lparr>columns = [''x'', ''y'', ''min_distance''],
          rows = [(ex_row 0 0)(''min_distance'' \<mapsto> Num 0),
                  (ex_row 1 0)(''min_distance'' \<mapsto> Num 0)]\<rparr>
   \<and> length (rows nan_trace) = 3
   \<and> data_filter_points_by_distance big_trace (ex_cfg (Num big_threshold)) =
     Inr \<lparr>columns = [''x'', ''y'', ''min_distance''],
          rows = [(ex_row 0 0)(''min_distance'' \<mapsto> Num big_threshold),
                  (ex_row big 0)(''min_distance'' \<mapsto> Num big_threshold)]\<rparr>
   \<and> \<not> spaced (far_euclid (Num big_threshold)) (coord ''x'' ''y'')
          [(ex_row 0 0)(''min_distance'' \<mapsto> Num big_threshold),
           (ex_row big 0)(''min_distance'' \<mapsto> Num big_threshold)]"
proof -
  have 1: "data_filter_points_by_distance nan_trace (ex_cfg (Num 0)) =
     Inr \<lparr>columns = [''x'', ''y'', ''min_distance''],
          rows = [(ex_row 0 0)(''min_distance'' \<mapsto> Num 0),
                  (ex_row 1 0)(''min_distance'' \<mapsto> Num 0)]\<rparr>"
    by (simp add: nan_trace_def nan_row_def ex_cfg_def ex_row_def resampler_eval)
  have 3: "\<not> spaced (far_euclid (Num big_threshold)) (coord ''x'' ''y'')
          [(ex_row 0 0)(''min_distance'' \<mapsto> Num big_threshold),
           (ex_row big 0)(''min_distance'' \<mapsto> Num big_threshold)]"
    using big_not_far by (simp add: coord_def ex_row_def)
  show ?thesis using 1 big_trace_result 3 by (simp add: nan_trace_def)
qed

text \<open>
  Claim C7, amended. The Resampler does not validate \<open>min_distance\<close>: for a non-empty
  trace that has the planar columns and a threshold that is zero or negative it returns
  a frame and raises nothing, and it retains every row when all coordinates are finite.
\<close>

theorem resampler_nonpositive_distance:
  assumes "x_col cfg = Some xc" "y_col cfg = Some yc" "min_distance cfg = Some (Num v)"
    and "v \<le> 0"
    and "\<not> df_empty df" "xc \<in> set (columns df)" "yc \<in> set (columns df)"
  shows "\<exists>out. data_filter_points_by_distance df cfg = Inr out
           \<and> (finite_coords xc yc df
                \<longrightarrow> rows out = map (\<lambda>r. r(''min_distance'' \<mapsto> Num v)) (rows df))"
  using filter_nonempty[OF assms(1,2,3,5,6,7)] resample_spec_all[OF assms(4), of xc yc df]
  by (simp add: set_scalar_column_def)

theorem resampler_nonpositive_distance_witness:
  "(-1::real) \<le> 0 \<and> finite_coords ''x'' ''y'' ex_trace
   \<and> data_filter_points_by_distance ex_trace (ex_cfg (Num (-1))) =
     Inr \<lparr>columns = [''x'', ''y'', ''min_distance''],
          rows = [(ex_row 0 0)(''min_distance'' \<mapsto> Num (-1)),
                  (ex_row 0 0)(''min_distance'' \<mapsto> Num (-1)),
                  (ex_row 1 0)(''min_distance'' \<mapsto> Num (-1)),
                  (ex_row 1 1)(''min_distance'' \<mapsto> Num (-1))]\<rparr>"
  using resampler_nonpositive_distance[of "ex_cfg (Num (-1))" "''x''" "''y''" "-1" ex_trace]
  by (simp add: ex_cfg_def ex_trace_def ex_row_def finite_coords_def resampler_eval)

text \<open>
  The claim as stated fails at \<open>min_distance = 0\<close> on a trace of two equal points: the
  call returns both rows.
\<close>

theorem resampler_nonpositive_distance_counterexample:
  "data_filter_points_by_distance two_trace (ex_cfg (Num 0)) =
     Inr \<lparr>columns = [''x'', ''y'', ''min_distance''],
          rows = [(ex_row 0 0)(''min_distance'' \<mapsto> Num 0),
                  (ex_row 0 0)(''min_distance'' \<mapsto> Num 0)]\<rparr>
   \<and> \<not> isl (data_filter_points_by_distance two_trace (ex_cfg (Num 0)))"
  by (simp add: two_trace_def ex_cfg_def ex_row_def resampler_eval)

text \<open>
  Claim C10. With a configuration that names the planar columns and the threshold, an
  empty trace is returned unchanged, whether or not it has the planar columns; and the
  Resampler fails for a missing column only on a trace that is not empty.
\<close>

theorem resampler_empty_before_validation:
  "(df_empty df \<and> x_col cfg \<noteq> None \<and> y_col cfg \<noteq> None \<and> min_distance cfg \<noteq> None
      \<longrightarrow> data_filter_points_by_distance df cfg = Inr df)
   \<and> (data_filter_points_by_distance df cfg = Inl (MissingColumn col) \<longrightarrow> \<not> df_empty df)"
  by (auto simp: data_filter_points_by_distance_def split: option.splits)

theorem resampler_empty_before_validation_witness:
  "df_empty empty_trace \<and> ''x'' \<notin> set (columns empty_trace)
   \<and> ''y'' \<notin> set (columns empty_trace)
   \<and> data_filter_points_by_distance empty_trace (ex_cfg (Num 1)) = Inr empty_trace
   \<and> data_filter_points_by_distance unprojected_trace (ex_cfg (Num 1)) = Inl (MissingColumn ''x'')
   \<and> \<not> df_empty unprojected_trace"
  using resampler_empty_before_validation[of empty_trace "ex_cfg (Num 1)"]
    resampler_empty_before_validation[of unprojected_trace "ex_cfg (Num 1)" "''x''"]
  by (simp add: empty_trace_def unprojected_trace_def ex_cfg_def resampler_eval)

section \<open>Properties of the Kinematics Estimator\<close>




lemma length_column: "length (column name df) = length (rows df)"
  by (simp add: column_def)

lemma column_set_column:
  "length vs = length (rows df) \<Longrightarrow> column name (set_column name vs df) = vs"
  by (auto simp: column_def set_column_def list_eq_iff_nth_eq)

lemma rmod_range: "0 < m \<Longrightarrow> 0 \<le> rmod a m \<and> rmod a m < m"
proof -
  assume m: "0 < m"
  define q where "q = real_of_int \<lfloor>a / m\<rfloor>"
  have 1: "q \<le> a / m" unfolding q_def by (rule of_int_floor_le)
  have 2: "a / m < q + 1" unfolding q_def by linarith
  have "q * m \<le> a" using 1 m pos_le_divide_eq[of m q a] by blast
  moreover have "a < (q + 1) * m" using 2 m pos_divide_less_eq[of m a "q + 1"] by blast
  ultimately show ?thesis unfolding rmod_def q_def[symmetric] by (simp add: algebra_simps)
qed




text \<open>
  \<open>atan2\<close> is the angle function: its value lies in \<open>(-pi, pi]\<close> and is the polar angle
  of the point \<open>(x, y)\<close>.
\<close>

lemma atan2_range: "- pi < atan2 y x \<and> atan2 y x \<le> pi"
proof -
  have b: "- (pi / 2) < arctan (y / x)" "arctan (y / x) < pi / 2"
    by (rule arctan_lbound, rule arctan_ubound)
  have neg: "arctan (y / x) \<le> 0" if "x < 0" "0 \<le> y"
  proof -
    have "y / x \<le> 0" using that by (simp add: divide_nonneg_neg)
    then show ?thesis using arctan_monotone'[of "y / x" 0] by simp
  qed
  have pos: "0 < arctan (y / x)" if "x < 0" "y < 0"
  proof -
    have "0 < y / x" using that by (simp add: divide_neg_neg)
    then show ?thesis using arctan_monotone[of 0 "y / x"] by simp
  qed
  show ?thesis
    using b neg pos pi_gt_zero unfolding atan2_def
    by (auto; linarith?)
qed

lemma atan2_polar:
  assumes "x \<noteq> 0 \<or> y \<noteq> 0"
  shows "sqrt (x * x + y * y) * cos (atan2 y x) = x \<and> sqrt (x * x + y * y) * sin (atan2 y x) = y"
proof -
  have xne: "sqrt (x * x + y * y) * cos (arctan (y / x)) = \<bar>x\<bar>
           \<and> sqrt (x * x + y * y) * sin (arctan (y / x)) = \<bar>x\<bar> * (y / x)" if "x \<noteq> 0"
  proof -
    have "x * x + y * y = (x * x) * (1 + (y / x)\<^sup>2)"
      using that by (simp add: field_simps power2_eq_square)
    then have s: "sqrt (x * x + y * y) = \<bar>x\<bar> * sqrt (1 + (y / x)\<^sup>2)"
      by (simp add: real_sqrt_mult)
    have p: "0 < sqrt (1 + (y / x)\<^sup>2)"
      by (simp add: add_pos_nonneg)
    show ?thesis
      using p by (simp add: s cos_arctan sin_arctan)
  qed
  show ?thesis
  proof (cases "x = 0")
    case True
    then have "y \<noteq> 0" using assms by simp
    then show ?thesis using True by (auto simp: atan2_def real_sqrt_mult_self)
  next
    case False
    then show ?thesis using xne[OF False]
      by (auto simp: atan2_def)
  qed
qed







lemma length_diff64: "length (diff64 xs) = length xs"
  by (cases xs) auto

lemma diff64_nth:
  "0 < i \<Longrightarrow> i < length xs \<Longrightarrow> diff64 xs ! i = sub64 (xs ! i) (xs ! (i - 1))"
  by (cases xs; cases i) auto

lemma fmod_range:
  assumes "0 < m"
  shows "- m < fmod a m \<and> fmod a m < m"
proof (cases "0 \<le> a / m")
  case True
  then have "fmod a m = rmod a m" by (simp add: fmod_def trunc_def rmod_def)
  then show ?thesis using rmod_range[OF assms, of a] assms by linarith
next
  case False
  define q where "q = real_of_int \<lceil>a / m\<rceil>"
  have 1: "a / m \<le> q" unfolding q_def by (rule le_of_int_ceiling)
  have 2: "q < a / m + 1" unfolding q_def by linarith
  have lo: "a \<le> q * m" using 1 assms pos_divide_le_eq[of m a q] by blast
  have "q - 1 < a / m" using 2 by linarith
  then have "(q - 1) * m < a" using assms pos_less_divide_eq[of m "q - 1" a] by blast
  then have hi: "q * m - m < a" by (simp add: algebra_simps)
  have "fmod a m = a - q * m" using False by (simp add: fmod_def trunc_def q_def)
  then show ?thesis using lo hi assms by linarith
qed

lemma mod64_360:
  "\<exists>r. mod64 (Num s) 360 = Num r \<and> 0 \<le> r \<and> r \<le> 360"
proof -
  have f: "- 360 < fmod s 360" "fmod s 360 < 360" using fmod_range[of 360 s] by simp_all
  show ?thesis
  proof (cases "fmod s 360 < 0")
    case True
    have "\<exists>y. round64 (fmod s 360 + 360) = Num y \<and> of_int 0 \<le> y \<and> y \<le> of_int 360"
      using f True by (intro round64_sandwich) simp_all
    then show ?thesis using True by (auto simp: Let_def)
  next
    case False
    then show ?thesis using f by (auto simp: Let_def)
  qed
qed

lemma wrap180_range:
  assumes "add64 d (Num 180) = Num s"
  shows "\<exists>w. wrap180 d = Num w \<and> - 180 \<le> w \<and> w \<le> 180"
proof -
  obtain r where r: "mod64 (Num s) 360 = Num r" "0 \<le> r" "r \<le> 360"
    using mod64_360 by blast
  have "\<exists>y. round64 (r + - 180) = Num y \<and> of_int (- 180) \<le> y \<and> y \<le> of_int 180"
    using r(2,3) by (intro round64_sandwich) simp_all
  then show ?thesis by (simp add: wrap180_def assms r(1) sub64_def del: mod64.simps)
qed

lemma wrap180_total:
  "wrap180 d = NaN \<or> (\<exists>w. wrap180 d = Num w \<and> - 180 \<le> w \<and> w \<le> 180)"
proof (cases "add64 d (Num 180)")
  case (Num s)
  then show ?thesis using wrap180_range by blast
qed (simp_all add: wrap180_def sub64_def)

lemma wrap180_NaN: "wrap180 NaN = NaN"
  by (simp add: wrap180_def sub64_def)

lemma wrap180_moderate:
  assumes "\<bar>h' - h\<bar> \<le> 2 ^ 52"
  shows "\<exists>w. wrap180 (sub64 (Num h') (Num h)) = Num w \<and> - 180 \<le> w \<and> w \<le> 180"
proof -
  have "\<exists>d. round64 (h' + - h) = Num d \<and> of_int (- (2 ^ 52)) \<le> d \<and> d \<le> of_int (2 ^ 52)"
    using assms by (intro round64_sandwich) (simp_all add: abs_le_iff)
  then obtain d where d: "sub64 (Num h') (Num h) = Num d" "- (2 ^ 52) \<le> d" "d \<le> 2 ^ 52"
    by (auto simp: sub64_def)
  have "\<exists>s. round64 (d + 180) = Num s
          \<and> of_int (- (2 ^ 52) + 180) \<le> s \<and> s \<le> of_int (2 ^ 52 + 180)"
    using d(2,3) by (intro round64_sandwich) simp_all
  then obtain s where "add64 (Num d) (Num 180) = Num s" by auto
  then show ?thesis unfolding d(1) by (rule wrap180_range)
qed

lemma wrap180_examples:
  "wrap180 (sub64 (Num 1) (Num 359)) = Num 2"
  "wrap180 (sub64 (Num 359) (Num 1)) = Num (- 2)"
  by (simp_all add: wrap180_def sub64_def round64_simps fmod_def trunc_def Let_def)

lemma div64_zero: "div64 v (Num 0) \<in> {PInf, NInf, NaN}"
  by (cases v) auto

lemma wrapped_heading_diff_nth:
  "0 < i \<Longrightarrow> i < length hs \<Longrightarrow>
   wrapped_heading_diff hs ! i = wrap180 (sub64 (hs ! i) (hs ! (i - 1)))"
  by (simp add: wrapped_heading_diff_def length_diff64 diff64_nth)

lemma length_wrapped_heading_diff: "length (wrapped_heading_diff hs) = length hs"
  by (simp add: wrapped_heading_diff_def length_diff64)

lemma yaw_result:
  assumes "hc = get_default (heading_col cfg) ''heading_deg''"
    and "dc = get_default (dt_col cfg) ''dt''"
    and "hc \<in> set (columns df)" "dc \<in> set (columns df)"
  shows "data_compute_yaw_rate_from_heading df cfg =
           Inr (set_column ''yaw_rate_deg_s''
                  (map2 div64 (wrapped_heading_diff (column hc df)) (column dc df)) df)"
  using assms by (simp add: data_compute_yaw_rate_from_heading_def)

text \<open>
  The heading \<open>seam\<close>, \<open>180 + 2 ^ -45\<close>, is the double next above 180. From it to the
  heading 0 the wrapped difference is exactly 180: the sum \<open>-2 ^ -45 + 360\<close> lies halfway
  between two doubles and rounds to 360.
\<close>

lemma seam_wrap: "wrap180 (sub64 (Num 0) (Num seam)) = Num 180"
proof -
  define e :: real where "e = 1 / 2 ^ 45"
  have e: "0 < e" "e < 1" by (simp_all add: e_def)
  have r1: "round64 (- (180 + e)) = Num (- (180 + e))"
    using round64_repr[of "- (180 * 2 ^ 45 + 1)" "- 45"] by (simp add: pow2_def e_def)
  have se: "seam = 180 + e" by (simp add: seam_def e_def)
  have 1: "sub64 (Num 0) (Num seam) = Num (- (180 + e))"
    unfolding se using r1 by (simp add: sub64_def)
  have r2: "round64 (- e) = Num (- e)"
    using round64_repr[of "- 1" "- 45"] by (simp add: pow2_def e_def)
  have 2: "add64 (Num (- (180 + e))) (Num 180) = Num (- e)"
    using r2 by simp
  have "\<lceil>- e / 360\<rceil> = 0" by (rule ceiling_unique) (use e in simp_all)
  then have f: "fmod (- e) 360 = - e"
    using e by (simp add: fmod_def trunc_def)
  have r3: "round64 (- e + 360) = Num 360"
    using round64_tie_360 by (simp add: e_def)
  have 3: "mod64 (Num (- e)) 360 = Num 360"
    unfolding mod64.simps f Let_def using e r3 by simp
  have 4: "sub64 (Num 360) (Num 180) = Num 180"
    by (simp add: sub64_def round64_simps)
  show ?thesis unfolding wrap180_def 1 2 3 4 ..
qed

text \<open>
  Claim C5, amended. When the heading and dt columns exist, the yaw rate of row \<open>i \<ge> 1\<close>
  is the wrapped heading difference divided by \<open>dt[i]\<close>, where the wrapped difference is
  \<open>(h[i] - h[i-1] + 180) % 360 - 180\<close> in float64. It is NaN or lies in the closed range
  \<open>[-180, 180]\<close>, and it is a number whenever the two headings are numbers at most
  \<open>2 ^ 52\<close> apart; it is \<open>+2\<close> from 359 to 1 and \<open>-2\<close> from 1 to 359. Where \<open>dt[i]\<close> is
  zero the yaw rate is an infinity or NaN, never a finite number.
\<close>

theorem yaw_rate_from_heading:
  assumes "hc = get_default (heading_col cfg) ''heading_deg''"
    and "dc = get_default (dt_col cfg) ''dt''"
    and "hc \<in> set (columns df)" "dc \<in> set (columns df)"
  shows "\<exists>out. data_compute_yaw_rate_from_heading df cfg = Inr out
           \<and> length (column ''yaw_rate_deg_s'' out) = length (rows df)
           \<and> (\<forall>i. 0 < i \<and> i < length (rows df) \<longrightarrow>
                 column ''yaw_rate_deg_s'' out ! i
                   = div64 (wrapped_heading_diff (column hc df) ! i) (column dc df ! i)
                 \<and> wrapped_heading_diff (column hc df) ! i
                   = wrap180 (sub64 (column hc df ! i) (column hc df ! (i - 1)))
                 \<and> (wrapped_heading_diff (column hc df) ! i = NaN
                      \<or> (\<exists>w. wrapped_heading_diff (column hc df) ! i = Num w
                            \<and> - 180 \<le> w \<and> w \<le> 180))
                 \<and> (\<forall>h h'. column hc df ! (i - 1) = Num h \<and> column hc df ! i = Num h'
                          \<and> \<bar>h' - h\<bar> \<le> 2 ^ 52 \<longrightarrow>
                       (\<exists>w. wrapped_heading_diff (column hc df) ! i = Num w
                            \<and> - 180 \<le> w \<and> w \<le> 180))
                 \<and> (column hc df ! (i - 1) = Num 359 \<and> column hc df ! i = Num 1 \<longrightarrow>
                       wrapped_heading_diff (column hc df) ! i = Num 2)
                 \<and> (column hc df ! (i - 1) = Num 1 \<and> column hc df ! i = Num 359 \<longrightarrow>
                       wrapped_heading_diff (column hc df) ! i = Num (- 2)))
           \<and> (\<forall>i. i < length (rows df) \<and> column dc df ! i = Num 0 \<longrightarrow>
                 column ''yaw_rate_deg_s'' out ! i \<in> {PInf, NInf, NaN})"
proof -
  let ?hs = "column hc df" and ?dts = "column dc df"
  let ?w = "wrapped_heading_diff ?hs"
  let ?ys = "map2 div64 ?w ?dts"
  let ?out = "set_column ''yaw_rate_deg_s'' ?ys df"
  have res: "data_compute_yaw_rate_from_heading df cfg = Inr ?out"
    by (rule yaw_result[OF assms])
  have len: "length ?ys = length (rows df)"
    by (simp add: length_wrapped_heading_diff length_column)
  have col: "column ''yaw_rate_deg_s'' ?out = ?ys"
    by (rule column_set_column[OF len])
  have nth: "?ys ! i = div64 (?w ! i) (?dts ! i)" if "i < length (rows df)" for i
    using that by (simp add: length_wrapped_heading_diff length_column)
  have w: "?w ! i = wrap180 (sub64 (?hs ! i) (?hs ! (i - 1)))"
    if "0 < i" "i < length (rows df)" for i
    using that by (simp add: wrapped_heading_diff_nth length_column)
  show ?thesis
  proof (rule exI[of _ ?out], unfold col, intro conjI allI impI)
    show "data_compute_yaw_rate_from_heading df cfg = Inr ?out" by (rule res)
    show "length ?ys = length (rows df)" by (rule len)
  next
    fix i assume i: "0 < i \<and> i < length (rows df)"
    then show "?ys ! i = div64 (?w ! i) (?dts ! i)" using nth by blast
    show wi: "?w ! i = wrap180 (sub64 (?hs ! i) (?hs ! (i - 1)))" using i w by blast
    show "?w ! i = NaN \<or> (\<exists>w. ?w ! i = Num w \<and> - 180 \<le> w \<and> w \<le> 180)"
      unfolding wi by (rule wrap180_total)
    show "\<exists>w. ?w ! i = Num w \<and> - 180 \<le> w \<and> w \<le> 180"
      if "?hs ! (i - 1) = Num h \<and> ?hs ! i = Num h' \<and> \<bar>h' - h\<bar> \<le> 2 ^ 52" for h h'
      using wi that wrap180_moderate[of h' h] by simp
    show "?w ! i = Num 2" if "?hs ! (i - 1) = Num 359 \<and> ?hs ! i = Num 1"
      using wi that wrap180_examples(1) by simp
    show "?w ! i = Num (- 2)" if "?hs ! (i - 1) = Num 1 \<and> ?hs ! i = Num 359"
      using wi that wrap180_examples(2) by simp
  next
    fix i assume "i < length (rows df) \<and> ?dts ! i = Num 0"
    then show "?ys ! i \<in> {PInf, NInf, NaN}"
      using nth[of i] div64_zero[of "?w ! i"] by simp
  qed
qed

theorem yaw_rate_from_heading_witness:
  "data_compute_yaw_rate_from_heading yaw_trace heading_cfg =
     Inr \<lparr>columns = [''heading_deg'', ''dt'', ''yaw_rate_deg_s''],
          rows = [(yaw_row (Num 359) NaN)(''yaw_rate_deg_s'' \<mapsto> NaN),
                  (yaw_row (Num 1) (Num 1))(''yaw_rate_deg_s'' \<mapsto> Num 2),
                  (yaw_row (Num 359) (Num 0))(''yaw_rate_deg_s'' \<mapsto> NInf)]\<rparr>
   \<and> wrapped_heading_diff [Num 359, Num 1, Num 359] = [NaN, Num 2, Num (- 2)]"
  using yaw_rate_from_heading[of "''heading_deg''" heading_cfg "''dt''" yaw_trace]
  by (simp add: data_compute_yaw_rate_from_heading_def heading_cfg_def yaw_trace_def
      get_default_def column_def set_column_def yaw_row_def wrapped_heading_diff_def
      wrap180_examples wrap180_NaN round64_simps Let_def)

text \<open>
  The claim as stated, with the half-open range \<open>[-180, 180)\<close>, fails on \<open>seam_trace\<close>:
  the wrapped difference of its second row is exactly 180.
\<close>

theorem yaw_rate_from_heading_counterexample:
  "wrapped_heading_diff [Num seam, Num 0] = [NaN, Num 180]
   \<and> data_compute_yaw_rate_from_heading seam_trace heading_cfg =
     Inr \<lparr>columns = [''heading_deg'', ''dt'', ''yaw_rate_deg_s''],
          rows = [(yaw_row (Num seam) NaN)(''yaw_rate_deg_s'' \<mapsto> NaN),
                  (yaw_row (Num 0) (Num 1))(''yaw_rate_deg_s'' \<mapsto> Num 180)]\<rparr>"
proof -
  have w: "wrapped_heading_diff [Num seam, Num 0] = [NaN, Num 180]"
    using seam_wrap by (simp add: wrapped_heading_diff_def wrap180_NaN)
  have c: "column ''heading_deg'' seam_trace = [Num seam, Num 0]"
    "column ''dt'' seam_trace = [NaN, Num 1]"
    by (simp_all add: column_def seam_trace_def yaw_row_def)
  have "data_compute_yaw_rate_from_heading seam_trace heading_cfg =
          Inr (set_column ''yaw_rate_deg_s''
                 (map2 div64 (wrapped_heading_diff (column ''heading_deg'' seam_trace))
                    (column ''dt'' seam_trace)) seam_trace)"
    by (rule yaw_result) (simp_all add: heading_cfg_def get_default_def seam_trace_def)
  then have "data_compute_yaw_rate_from_heading seam_trace heading_cfg =
          Inr (set_column ''yaw_rate_deg_s'' [NaN, Num 180] seam_trace)"
    unfolding c w by (simp add: round64_simps)
  then show ?thesis using w by (simp add: set_column_def seam_trace_def)
qed

section \<open>Properties of the Temporal Differencer\<close>

lemma length_those: "those xs = Some ys \<Longrightarrow> length ys = length xs"
  by (induction xs arbitrary: ys) (auto split: option.splits)

lemma length_stamp_diff: "length (stamp_diff ts) = length ts"
  by (cases ts) auto

lemma stamp_diff_0: "ts \<noteq> [] \<Longrightarrow> stamp_diff ts ! 0 = None"
  by (cases ts) auto

lemma stamp_diff_nth:
  "0 < i \<Longrightarrow> i < length ts \<Longrightarrow> stamp_diff ts ! i = stamp_sub (ts ! i) (ts ! (i - 1))"
  by (cases ts; cases i) auto

lemma rows_set_column:
  "length vs = length (rows df) \<Longrightarrow> length (rows (set_column name vs df)) = length (rows df)"
  by (simp add: set_column_def)

text \<open>
  Claim C6. When the timestamp column exists and every cell of it parses, the Temporal
  Differencer returns a frame whose \<open>dt\<close> column has one cell per row; the first cell is
  NaN, not zero; the cell of row \<open>i \<ge> 1\<close> is \<open>timestamp[i] - timestamp[i-1]\<close> in seconds,
  so it is strictly positive where the timestamps increase and negative where they
  decrease, and no error is raised in either case.
\<close>

theorem temporal_differencer:
  assumes "datetime_col \<in> set (columns df)"
    and "those (map to_datetime (column datetime_col df)) = Some ts"
  shows "\<exists>out. parse_time_and_compute_dt to_datetime df datetime_col = Inr out
           \<and> length (column ''dt'' out) = length (rows df)
           \<and> (rows df \<noteq> [] \<longrightarrow> column ''dt'' out ! 0 = Secs NaN)
           \<and> (\<forall>i a b. 0 < i \<and> i < length (rows df)
                  \<and> ts ! (i - 1) = Stamp a \<and> ts ! i = Stamp b \<longrightarrow>
                 column ''dt'' out ! i = Secs (Num (real_of_int (b - a) / 1000000000))
                 \<and> (a < b \<longrightarrow> (\<exists>d. column ''dt'' out ! i = Secs (Num d) \<and> 0 < d))
                 \<and> (b < a \<longrightarrow> (\<exists>d. column ''dt'' out ! i = Secs (Num d) \<and> d < 0)))"
proof -
  let ?dts = "map (Secs \<circ> total_seconds) (stamp_diff ts)"
  let ?df1 = "set_column datetime_col (map Time ts) df"
  let ?out = "set_column ''dt'' ?dts ?df1"
  have res: "parse_time_and_compute_dt to_datetime df datetime_col = Inr ?out"
    using assms by (simp add: parse_time_and_compute_dt_def)
  have lts: "length ts = length (rows df)"
    using length_those[OF assms(2)] by (simp add: length_column)
  have len1: "length (rows ?df1) = length (rows df)"
    by (rule rows_set_column) (simp add: lts)
  have len: "length ?dts = length (rows ?df1)"
    by (simp add: length_stamp_diff lts len1)
  have col: "column ''dt'' ?out = ?dts"
    by (rule column_set_column[OF len])
  have first: "?dts ! 0 = Secs NaN" if "rows df \<noteq> []"
  proof -
    have "ts \<noteq> []" using that lts by auto
    then show ?thesis by (simp add: length_stamp_diff stamp_diff_0)
  qed
  have later: "?dts ! i = Secs (Num (real_of_int (b - a) / 1000000000))"
    if "0 < i" "i < length (rows df)" "ts ! (i - 1) = Stamp a" "ts ! i = Stamp b" for i a b
    using that lts by (simp add: length_stamp_diff stamp_diff_nth)
  show ?thesis
  proof (rule exI[of _ ?out], unfold col, intro conjI allI impI)
    show "parse_time_and_compute_dt to_datetime df datetime_col = Inr ?out" by (rule res)
    show "length ?dts = length (rows df)" using len len1 by simp
    show "?dts ! 0 = Secs NaN" if "rows df \<noteq> []" using that by (rule first)
  next
    fix i a b
    assume h: "0 < i \<and> i < length (rows df) \<and> ts ! (i - 1) = Stamp a \<and> ts ! i = Stamp b"
    then show f: "?dts ! i = Secs (Num (real_of_int (b - a) / 1000000000))"
      using later[of i a b] by blast
    show "\<exists>d. ?dts ! i = Secs (Num d) \<and> 0 < d" if "a < b"
    proof -
      have "0 < real_of_int (b - a) / 1000000000" using that by simp
      then show ?thesis using f by blast
    qed
    show "\<exists>d. ?dts ! i = Secs (Num d) \<and> d < 0" if "b < a"
    proof -
      have "real_of_int (b - a) / 1000000000 < 0" using that by simp
      then show ?thesis using f by blast
    qed
  qed
qed

theorem temporal_differencer_witness:
  "those (map ex_to_datetime (column ''DatumZeit'' time_trace))
     = Some [Stamp 1712052000000000000, Stamp 1712052002000000000, Stamp 1712052001000000000]
   \<and> parse_time_and_compute_dt ex_to_datetime time_trace ''DatumZeit'' =
     Inr \<lparr>columns = [''DatumZeit'', ''dt''],
          rows = [[''DatumZeit'' \<mapsto> Time (Stamp 1712052000000000000), ''dt'' \<mapsto> Secs NaN],
                  [''DatumZeit'' \<mapsto> Time (Stamp 1712052002000000000), ''dt'' \<mapsto> Secs (Num 2)],
                  [''DatumZeit'' \<mapsto> Time (Stamp 1712052001000000000),
                   ''dt'' \<mapsto> Secs (Num (- 1))]]\<rparr>"
  using temporal_differencer[of "''DatumZeit''" time_trace ex_to_datetime
      "[Stamp 1712052000000000000, Stamp 1712052002000000000, Stamp 1712052001000000000]"]
  by (simp add: parse_time_and_compute_dt_def time_trace_def ex_to_datetime_def column_def
      set_column_def)

section \<open>Properties of the Projector\<close>

lemma column_set_scalar_column:
  "column name (set_scalar_column name v df) = replicate (length (rows df)) v"
  by (simp add: column_def set_scalar_column_def o_def map_replicate_const)

lemma rows_set_scalar_column:
  "length (rows (set_scalar_column name v df)) = length (rows df)"
  by (simp add: set_scalar_column_def)

lemma project_columns_ok:
  assumes "lat \<in> set (columns df)" "lon \<in> set (columns df)"
  shows "\<exists>out. project_columns transform str_cell lat lon sel df = Inr out
           \<and> column ''selected_smoothing_method'' out
               = replicate (length (rows df)) (str_cell sel)"
  using assms
  by (simp add: project_columns_def Let_def column_set_scalar_column)
     (simp add: set_column_def column_def)

text \<open>
  Claim C8, amended. When the trace carries more than one smoothed latitude column, the
  Projector opens a dialog and takes the method the user leaves selected (the first
  variant unless changed): it projects the columns of that method and records the method
  when both of its columns exist, and fails with an invalid-selection error otherwise.
\<close>

theorem projector_asks_user:
  assumes "slc = filter (prefix ''GPS_lat_smooth_'') (columns df)" and "1 < length slc"
    and "sel = ask_user (last_part (hd slc)) (map last_part slc)"
  shows "(''GPS_lat_smooth_'' @ sel \<in> set (columns df)
            \<and> ''GPS_lon_smooth_'' @ sel \<in> set (columns df) \<longrightarrow>
          (\<exists>out. data_convert_to_planar ask_user transform str_cell df cfg = Inr out
             \<and> data_convert_to_planar ask_user transform str_cell df cfg
                 = project_columns transform str_cell
                     (''GPS_lat_smooth_'' @ sel) (''GPS_lon_smooth_'' @ sel) sel df
             \<and> column ''selected_smoothing_method'' out
                 = replicate (length (rows df)) (str_cell sel)))
       \<and> (\<not> (''GPS_lat_smooth_'' @ sel \<in> set (columns df)
              \<and> ''GPS_lon_smooth_'' @ sel \<in> set (columns df)) \<longrightarrow>
          data_convert_to_planar ask_user transform str_cell df cfg = Inl (InvalidSelection sel))"
proof -
  have bad: "data_convert_to_planar ask_user transform str_cell df cfg = Inl (InvalidSelection sel)"
    if "\<not> (''GPS_lat_smooth_'' @ sel \<in> set (columns df)
              \<and> ''GPS_lon_smooth_'' @ sel \<in> set (columns df))"
    using that assms by (auto simp: data_convert_to_planar_def Let_def)
  have good: "data_convert_to_planar ask_user transform str_cell df cfg
                 = project_columns transform str_cell
                     (''GPS_lat_smooth_'' @ sel) (''GPS_lon_smooth_'' @ sel) sel df"
    if "''GPS_lat_smooth_'' @ sel \<in> set (columns df)" "''GPS_lon_smooth_'' @ sel \<in> set (columns df)"
    using that assms by (auto simp: data_convert_to_planar_def Let_def)
  show ?thesis
    using bad good project_columns_ok[of "''GPS_lat_smooth_'' @ sel" df "''GPS_lon_smooth_'' @ sel"
        transform str_cell sel]
    by metis
qed

theorem projector_asks_user_witness:
  "1 < length (filter (prefix ''GPS_lat_smooth_'') (columns smoothed_trace))
   \<and> keep_default ''savitzky'' [''savitzky'', ''gaussian''] = ''savitzky''
   \<and> column ''selected_smoothing_method''
        (projr (data_convert_to_planar keep_default ex_transform PStr smoothed_trace (ex_cfg (Num 1))))
      = [PStr ''savitzky'']
   \<and> data_convert_to_planar keep_default ex_transform PStr lat_only_trace (ex_cfg (Num 1))
      = Inl (InvalidSelection ''savitzky'')"
  using projector_asks_user[of "[''GPS_lat_smooth_savitzky'', ''GPS_lat_smooth_gaussian'']"
      smoothed_trace "''savitzky''" keep_default ex_transform PStr "ex_cfg (Num 1)"]
    projector_asks_user[of "[''GPS_lat_smooth_savitzky'', ''GPS_lat_smooth_gaussian'']"
      lat_only_trace "''savitzky''" keep_default ex_transform PStr "ex_cfg (Num 1)"]
  by (auto simp: smoothed_trace_def lat_only_trace_def keep_default_def last_part_def)

text \<open>
  The claim as stated fails on a trace with the variants \<open>savitzky\<close> and \<open>gaussian\<close>: with
  no selection parameter in the configuration the call succeeds, on the variant the
  dialog returns.
\<close>

theorem projector_asks_user_counterexample:
  "data_convert_to_planar keep_default ex_transform PStr smoothed_trace (ex_cfg (Num 1)) =
     Inr \<lparr>columns = [''GPS_lat'', ''GPS_lon'', ''GPS_lat_smooth_savitzky'',
                     ''GPS_lon_smooth_savitzky'', ''GPS_lat_smooth_gaussian'',
                     ''GPS_lon_smooth_gaussian'', ''x'', ''y'', ''selected_smoothing_method''],
          rows = [smoothed_row(''x'' \<mapsto> PNum (Num 13.1), ''y'' \<mapsto> PNum (Num 52.1),
                    ''selected_smoothing_method'' \<mapsto> PStr ''savitzky'')]\<rparr>
   \<and> \<not> isl (data_convert_to_planar keep_default ex_transform PStr smoothed_trace (ex_cfg (Num 1)))"
  by (simp add: data_convert_to_planar_def project_columns_def smoothed_trace_def
      keep_default_def ex_transform_def last_part_def Let_def column_def set_column_def
      set_scalar_column_def smoothed_row_def)

section \<open>Properties of the Smoothing Stage\<close>

lemma smooth_column_short:
  "length (rows df) < 51 \<Longrightarrow> \<exists>e. smooth_column smooth col df = Inl e"
  by (simp add: smooth_column_def savgol_filter_def length_column)

lemma smooth_column_window:
  "length (rows df) < 51 \<Longrightarrow> col \<in> set (columns df) \<Longrightarrow>
   smooth_column smooth col df = Inl SmoothingWindowError"
  by (simp add: smooth_column_def savgol_filter_def length_column)

text \<open>
  Claim C9. On a trace of fewer than 51 rows the Savitzky-Golay smoothing fails and
  returns no frame; with the latitude and longitude columns configured and the latitude
  column present, the failure is the window error of the filter.
\<close>

theorem savitzky_window:
  assumes "length (rows df) < 51"
  shows "(\<exists>e. data_smooth_gps_savitzky smooth df cfg = Inl e)
       \<and> (lat_col cfg = Some lat \<and> lon_col cfg = Some lon \<and> lat \<in> set (columns df) \<longrightarrow>
            data_smooth_gps_savitzky smooth df cfg = Inl SmoothingWindowError)"
proof -
  obtain e where e: "smooth_column smooth (the (lat_col cfg)) df = Inl e"
    using smooth_column_short[OF assms] by blast
  have 1: "\<exists>e. data_smooth_gps_savitzky smooth df cfg = Inl e"
    by (simp add: data_smooth_gps_savitzky_def e)
  have 2: "data_smooth_gps_savitzky smooth df cfg = Inl SmoothingWindowError"
    if "lat_col cfg = Some lat" "lon_col cfg = Some lon" "lat \<in> set (columns df)"
    using that smooth_column_window[OF assms that(3), of smooth]
    by (simp add: data_smooth_gps_savitzky_def)
  show ?thesis using 1 2 by blast
qed

theorem savitzky_window_witness:
  "length (rows unprojected_trace) < 51
   \<and> data_smooth_gps_savitzky id unprojected_trace (ex_cfg (Num 1)) = Inl SmoothingWindowError"
  using savitzky_window[of unprojected_trace id "ex_cfg (Num 1)" "''GPS_lat''" "''GPS_lon''"]
  by (simp add: unprojected_trace_def ex_cfg_def)

end
